theory Spec2Isabelle
  imports Complex_Main "HOL-Library.Product_Lexorder" "HOL-Library.List_Lexorder"
    "HOL-Library.Char_ord"
begin

section \<open>Data model (src/backend/src/database.py, src/backend/src/config.py)\<close>

text \<open>
  Python floats are modelled as reals (exact arithmetic), Python ints as \<open>int\<close>, a
  \<open>datetime.date\<close> as its day number (an \<open>int\<close>, so that the difference of two dates
  is the number of days between them), and a nullable column as an \<open>option\<close>.
  The theorems are therefore about the values of the expressions the code evaluates, not
  about their rounding in IEEE doubles.
  The exceptions the modelled functions can raise are values of \<open>error\<close>.
\<close>

datatype error = KeyError | ZeroDivisionError | TypeError

record Team =
  team_id :: int
  team_name :: string
  team_abbreviation :: string

record Game =
  game_id :: string
  date :: int
  home_team_id :: int
  away_team_id :: int
  home_score :: "int option"
  away_score :: "int option"
  season :: int
  game_type :: string
  home_team_pregame_elo :: "real option"
  away_team_pregame_elo :: "real option"

text \<open>
  Of a box score, the key columns and the six statistics that the feature code reads.
  The statistics are written once, by \<open>_create_box_score\<close>, which stores a number in each.
\<close>

record TeamBoxScore =
  bs_game_id :: string
  bs_team_id :: int
  is_home :: bool
  fg_pct :: real
  trb :: int
  ast :: int
  tov :: int
  pts :: int
  plus_minus :: int

record Odds =
  odds_game_id :: string
  bookmaker :: string
  home_team_moneyline :: "int option"
  away_team_moneyline :: "int option"

record database =
  teams :: "Team list"
  games :: "Game list"
  team_box_scores :: "TeamBoxScore list"
  odds_table :: "Odds list"

definition ELO_INITIAL :: real where
  "ELO_INITIAL = 1500"

definition ELO_K_FACTOR :: real where
  "ELO_K_FACTOR = 20"

definition ELO_HOME_ADVANTAGE :: real where
  "ELO_HOME_ADVANTAGE = 100"

definition ROLLING_WINDOW :: nat where
  "ROLLING_WINDOW = 10"

definition VALUE_EDGE_THRESHOLD :: real where
  "VALUE_EDGE_THRESHOLD = 3 / 100"

section \<open>Rating engine (src/backend/src/feature_engineering.py, calculate_elo_ratings)\<close>

text \<open>
  The rating dictionary \<open>elo_ratings\<close> is a map from team ids to ratings. It is filled
  from the team table only, and read with \<open>elo_ratings[...]\<close>, which raises KeyError for
  a key that is not there.
\<close>

type_synonym elo_ratings = "int \<rightharpoonup> real"

definition init_elo_ratings :: "Team list \<Rightarrow> elo_ratings" where
  "init_elo_ratings ts = fold (\<lambda>team elo. elo(team_id team \<mapsto> ELO_INITIAL)) ts Map.empty"

text \<open>
  The body of the loop over the games: read both ratings, stamp the game, and update
  the two ratings when both scores are there. The away rating is written last.
\<close>

definition calculate_elo_step :: "elo_ratings \<Rightarrow> Game \<Rightarrow> error + elo_ratings \<times> Game" where
  "calculate_elo_step elo game =
     (case elo (home_team_id game) of
        None \<Rightarrow> Inl KeyError
      | Some home_elo \<Rightarrow>
     (case elo (away_team_id game) of
        None \<Rightarrow> Inl KeyError
      | Some away_elo \<Rightarrow>
        let game' = game\<lparr>home_team_pregame_elo := Some home_elo,
                          away_team_pregame_elo := Some away_elo\<rparr>;
            home_elo_with_advantage = home_elo + ELO_HOME_ADVANTAGE;
            expected_home_win = 1 / (1 + 10 powr ((away_elo - home_elo_with_advantage) / 400));
            expected_away_win = 1 - expected_home_win
        in (case (home_score game, away_score game) of
              (Some hs, Some as) \<Rightarrow>
                let (actual_home_score, actual_away_score) =
                      (if hs > as then (1, 0)
                       else if hs < as then (0, 1)
                       else (1 / 2, 1 / 2));
                    home_elo_change = ELO_K_FACTOR * (actual_home_score - expected_home_win);
                    away_elo_change = ELO_K_FACTOR * (actual_away_score - expected_away_win)
                in Inr (elo(home_team_id game \<mapsto> home_elo + home_elo_change,
                            away_team_id game \<mapsto> away_elo + away_elo_change), game')
            | _ \<Rightarrow> Inr (elo, game'))))"

fun calculate_elo_loop :: "elo_ratings \<Rightarrow> Game list \<Rightarrow> error + elo_ratings \<times> Game list" where
  "calculate_elo_loop elo [] = Inr (elo, [])"
| "calculate_elo_loop elo (game # rest) =
     (case calculate_elo_step elo game of
        Inl e \<Rightarrow> Inl e
      | Inr (elo', game') \<Rightarrow>
          (case calculate_elo_loop elo' rest of
             Inl e \<Rightarrow> Inl e
           | Inr (elo'', out) \<Rightarrow> Inr (elo'', game' # out)))"

text \<open>\<open>db.query(Game).order_by(Game.date, Game.game_id).all()\<close>\<close>

definition ordered_games :: "database \<Rightarrow> Game list" where
  "ordered_games db = sort_key (\<lambda>game. (date game, game_id game)) (games db)"

text \<open>
  The pass itself, with the rating dictionary it ends with. The source keeps the
  dictionary local; \<open>calculate_elo_ratings\<close> commits the stamped games only, and commits
  nothing when the loop raises.
\<close>

definition rating_pass :: "database \<Rightarrow> error + elo_ratings \<times> Game list" where
  "rating_pass db = calculate_elo_loop (init_elo_ratings (teams db)) (ordered_games db)"

definition calculate_elo_ratings :: "database \<Rightarrow> error + database" where
  "calculate_elo_ratings db =
     (case rating_pass db of
        Inl e \<Rightarrow> Inl e
      | Inr (elo, out) \<Rightarrow> Inr (db\<lparr>games := out\<rparr>))"

section \<open>Odds conversion (src/backend/src/backtesting.py)\<close>

definition moneyline_to_implied_prob :: "int \<Rightarrow> real" where
  "moneyline_to_implied_prob moneyline =
     (if moneyline > 0 then 100 / (real_of_int moneyline + 100)
      else real_of_int \<bar>moneyline\<bar> / (real_of_int \<bar>moneyline\<bar> + 100))"

text \<open>
  \<open>100 / abs(moneyline)\<close> raises ZeroDivisionError for a moneyline of 0; the positive
  branch divides by the constant 100 only.
\<close>

definition moneyline_to_payout :: "int \<Rightarrow> real \<Rightarrow> error + real" where
  "moneyline_to_payout moneyline bet_amount =
     (if moneyline > 0 then Inr (bet_amount * (1 + real_of_int moneyline / 100))
      else if \<bar>moneyline\<bar> = 0 then Inl ZeroDivisionError
      else Inr (bet_amount * (1 + 100 / real_of_int \<bar>moneyline\<bar>)))"

section \<open>Form window (src/backend/src/feature_engineering.py)\<close>

record rolling_averages =
  avg_pts_scored :: real
  avg_pts_allowed :: real
  avg_fg_pct :: real
  avg_tov :: real
  avg_plus_minus :: real
  avg_rebounds :: real
  avg_assists :: real

text \<open>
  \<open>db.query(TeamBoxScore).join(Game).filter(...)\<close>: the box scores of the team, each
  with the game it belongs to, for the games before the date that have a home score.
  A query result is listed in table order; \<open>order_by(Game.date.desc())\<close> is a stable
  sort of it on the date, latest first, and \<open>limit(window)\<close> keeps the first
  \<open>window\<close> rows.
\<close>

definition box_scores_before :: "database \<Rightarrow> int \<Rightarrow> int \<Rightarrow> (TeamBoxScore \<times> Game) list" where
  "box_scores_before db team game_date =
     [(bs, game). bs \<leftarrow> team_box_scores db, game \<leftarrow> games db,
        game_id game = bs_game_id bs,
        bs_team_id bs = team \<and> date game < game_date \<and> home_score game \<noteq> None]"

definition get_rolling_averages :: "database \<Rightarrow> int \<Rightarrow> int \<Rightarrow> nat \<Rightarrow> rolling_averages" where
  "get_rolling_averages db team game_date window =
     (let box_scores = take window
            (sort_key (\<lambda>(bs, game). - date game) (box_scores_before db team game_date))
      in if box_scores = [] then
           \<lparr>avg_pts_scored = 0, avg_pts_allowed = 0, avg_fg_pct = 0, avg_tov = 0,
            avg_plus_minus = 0, avg_rebounds = 0, avg_assists = 0\<rparr>
         else
           let total_pts = (\<Sum>(bs, game) \<leftarrow> box_scores. pts bs);
               total_fg_pct = (\<Sum>(bs, game) \<leftarrow> box_scores. fg_pct bs);
               total_tov = (\<Sum>(bs, game) \<leftarrow> box_scores. tov bs);
               total_plus_minus = (\<Sum>(bs, game) \<leftarrow> box_scores. plus_minus bs);
               total_rebounds = (\<Sum>(bs, game) \<leftarrow> box_scores. trb bs);
               total_assists = (\<Sum>(bs, game) \<leftarrow> box_scores. ast bs);
               n = length box_scores;
               total_pts_allowed =
                 (\<Sum>(bs, game) \<leftarrow> box_scores.
                    if is_home bs then (case away_score game of None \<Rightarrow> 0 | Some s \<Rightarrow> s)
                    else (case home_score game of None \<Rightarrow> 0 | Some s \<Rightarrow> s))
           in \<lparr>avg_pts_scored = (if n > 0 then real_of_int total_pts / real n else 0),
               avg_pts_allowed = (if n > 0 then real_of_int total_pts_allowed / real n else 0),
               avg_fg_pct = (if n > 0 then total_fg_pct / real n else 0),
               avg_tov = (if n > 0 then real_of_int total_tov / real n else 0),
               avg_plus_minus = (if n > 0 then real_of_int total_plus_minus / real n else 0),
               avg_rebounds = (if n > 0 then real_of_int total_rebounds / real n else 0),
               avg_assists = (if n > 0 then real_of_int total_assists / real n else 0)\<rparr>)"

text \<open>
  The games between the two teams before the date that have a home score. The loop
  skips a game whose away score is missing, which still counts in the denominator.
\<close>

definition h2h_games :: "database \<Rightarrow> int \<Rightarrow> int \<Rightarrow> int \<Rightarrow> Game list" where
  "h2h_games db team opponent game_date =
     filter (\<lambda>game.
        ((home_team_id game = team \<and> away_team_id game = opponent) \<or>
         (home_team_id game = opponent \<and> away_team_id game = team)) \<and>
        date game < game_date \<and> home_score game \<noteq> None) (games db)"

definition get_h2h_win_pct :: "database \<Rightarrow> int \<Rightarrow> int \<Rightarrow> int \<Rightarrow> real" where
  "get_h2h_win_pct db team opponent game_date =
     (let gs = h2h_games db team opponent game_date
      in if gs = [] then 1 / 2
         else
           let wins = fold (\<lambda>game wins.
                   (case (home_score game, away_score game) of
                      (Some hs, Some as) \<Rightarrow>
                        if (home_team_id game = team \<and> hs > as) \<or>
                           (away_team_id game = team \<and> as > hs)
                        then wins + 1 else wins
                    | _ \<Rightarrow> wins)) gs (0 :: nat)
           in if length gs > 0 then real wins / real (length gs) else 1 / 2)"

text \<open>
  \<open>db.query(Game).join(TeamBoxScore).filter(...).order_by(Game.date.desc()).first()\<close>:
  the latest game before the date that has a home score and a box score of the team.
\<close>

definition games_played_before :: "database \<Rightarrow> int \<Rightarrow> int \<Rightarrow> Game list" where
  "games_played_before db team game_date =
     [game. game \<leftarrow> games db, bs \<leftarrow> team_box_scores db,
        bs_game_id bs = game_id game,
        bs_team_id bs = team \<and> date game < game_date \<and> home_score game \<noteq> None]"

definition get_days_rest :: "database \<Rightarrow> int \<Rightarrow> int \<Rightarrow> int" where
  "get_days_rest db team game_date =
     (case sort_key (\<lambda>game. - date game) (games_played_before db team game_date) of
        [] \<Rightarrow> 3
      | last_game # _ \<Rightarrow> max 0 (game_date - date last_game))"

section \<open>Feature builder (src/backend/src/feature_engineering.py, create_feature_set)\<close>

text \<open>One row of the feature frame: the keys of \<open>home_row\<close> and \<open>away_row\<close>.\<close>

record feature_row =
  row_game_id :: string
  row_team_id :: int
  opponent_id :: int
  row_is_home :: int
  target_did_win :: int
  target_win_margin :: int
  team_elo :: real
  opponent_elo :: real
  elo_diff :: real
  avg_pts_scored_l10 :: real
  avg_pts_allowed_l10 :: real
  avg_fg_pct_l10 :: real
  avg_tov_l10 :: real
  avg_plus_minus_l10 :: real
  avg_rebounds_l10 :: real
  avg_assists_l10 :: real
  opp_avg_pts_scored_l10 :: real
  opp_avg_pts_allowed_l10 :: real
  opp_avg_fg_pct_l10 :: real
  opp_avg_tov_l10 :: real
  opp_avg_plus_minus_l10 :: real
  h2h_win_pct :: real
  days_since_last_game :: int
  opponent_days_since_last_game :: int
  rest_advantage :: int
  row_season :: int
  row_date :: int

text \<open>
  \<open>game.home_team_pregame_elo or ELO_INITIAL\<close>: the initial rating stands in for a
  missing stamp and for a stamp of 0.
\<close>

definition elo_or_initial :: "real option \<Rightarrow> real" where
  "elo_or_initial e = (case e of None \<Rightarrow> ELO_INITIAL | Some r \<Rightarrow> if r = 0 then ELO_INITIAL else r)"

text \<open>
  The body of the loop over the games: nothing for a game with a missing score
  (\<open>continue\<close>), else the home row followed by the away row.
\<close>

definition game_feature_rows :: "database \<Rightarrow> Game \<Rightarrow> feature_row list" where
  "game_feature_rows db game =
     (case (home_score game, away_score game) of
        (Some hs, Some as) \<Rightarrow>
          let home_won = (if hs > as then 1 else 0);
              win_margin = hs - as;
              home_elo = elo_or_initial (home_team_pregame_elo game);
              away_elo = elo_or_initial (away_team_pregame_elo game);
              home_rolling = get_rolling_averages db (home_team_id game) (date game) ROLLING_WINDOW;
              away_rolling = get_rolling_averages db (away_team_id game) (date game) ROLLING_WINDOW;
              h2h_home = get_h2h_win_pct db (home_team_id game) (away_team_id game) (date game);
              h2h_away = get_h2h_win_pct db (away_team_id game) (home_team_id game) (date game);
              home_rest = get_days_rest db (home_team_id game) (date game);
              away_rest = get_days_rest db (away_team_id game) (date game);
              home_row =
                \<lparr>row_game_id = game_id game,
                 row_team_id = home_team_id game,
                 opponent_id = away_team_id game,
                 row_is_home = 1,
                 target_did_win = home_won,
                 target_win_margin = win_margin,
                 team_elo = home_elo,
                 opponent_elo = away_elo,
                 elo_diff = home_elo - away_elo,
                 avg_pts_scored_l10 = avg_pts_scored home_rolling,
                 avg_pts_allowed_l10 = avg_pts_allowed home_rolling,
                 avg_fg_pct_l10 = avg_fg_pct home_rolling,
                 avg_tov_l10 = avg_tov home_rolling,
                 avg_plus_minus_l10 = avg_plus_minus home_rolling,
                 avg_rebounds_l10 = avg_rebounds home_rolling,
                 avg_assists_l10 = avg_assists home_rolling,
                 opp_avg_pts_scored_l10 = avg_pts_scored away_rolling,
                 opp_avg_pts_allowed_l10 = avg_pts_allowed away_rolling,
                 opp_avg_fg_pct_l10 = avg_fg_pct away_rolling,
                 opp_avg_tov_l10 = avg_tov away_rolling,
                 opp_avg_plus_minus_l10 = avg_plus_minus away_rolling,
                 h2h_win_pct = h2h_home,
                 days_since_last_game = home_rest,
                 opponent_days_since_last_game = away_rest,
                 rest_advantage = home_rest - away_rest,
                 row_season = season game,
                 row_date = date game\<rparr>;
              away_row =
                \<lparr>row_game_id = game_id game,
                 row_team_id = away_team_id game,
                 opponent_id = home_team_id game,
                 row_is_home = 0,
                 target_did_win = 1 - home_won,
                 target_win_margin = - win_margin,
                 team_elo = away_elo,
                 opponent_elo = home_elo,
                 elo_diff = away_elo - home_elo,
                 avg_pts_scored_l10 = avg_pts_scored away_rolling,
                 avg_pts_allowed_l10 = avg_pts_allowed away_rolling,
                 avg_fg_pct_l10 = avg_fg_pct away_rolling,
                 avg_tov_l10 = avg_tov away_rolling,
                 avg_plus_minus_l10 = avg_plus_minus away_rolling,
                 avg_rebounds_l10 = avg_rebounds away_rolling,
                 avg_assists_l10 = avg_assists away_rolling,
                 opp_avg_pts_scored_l10 = avg_pts_scored home_rolling,
                 opp_avg_pts_allowed_l10 = avg_pts_allowed home_rolling,
                 opp_avg_fg_pct_l10 = avg_fg_pct home_rolling,
                 opp_avg_tov_l10 = avg_tov home_rolling,
                 opp_avg_plus_minus_l10 = avg_plus_minus home_rolling,
                 h2h_win_pct = h2h_away,
                 days_since_last_game = away_rest,
                 opponent_days_since_last_game = home_rest,
                 rest_advantage = away_rest - home_rest,
                 row_season = season game,
                 row_date = date game\<rparr>
          in [home_row, away_row]
      | _ \<Rightarrow> [])"

text \<open>
  The query: the games with a home score, of the season when \<open>season_filter\<close> is
  truthy (neither \<open>None\<close> nor 0), ordered by date.
\<close>

definition feature_games :: "database \<Rightarrow> int option \<Rightarrow> Game list" where
  "feature_games db season_filter =
     (let query = filter (\<lambda>game. home_score game \<noteq> None) (games db);
          query' = (case season_filter of
                      None \<Rightarrow> query
                    | Some s \<Rightarrow> if s \<noteq> 0 then filter (\<lambda>game. season game = s) query else query)
      in sort_key date query')"

definition create_feature_set :: "database \<Rightarrow> int option \<Rightarrow> feature_row list" where
  "create_feature_set db season_filter =
     concat (map (game_feature_rows db) (feature_games db season_filter))"

section \<open>Inference (src/backend/src/predict.py, get_current_elo)\<close>

text \<open>
  The most recent game of the team that has a home stamp (the latest date first, the
  first row taken), the team's stamp on it, and 15 points added for a win or taken off
  otherwise when both scores are there. The stamp read for an away team can be missing:
  \<open>elo += 15\<close> then raises TypeError, and without scores the function returns
  \<open>None\<close>; hence the result type.
\<close>

definition get_current_elo :: "database \<Rightarrow> int \<Rightarrow> error + real option" where
  "get_current_elo db team =
     (case sort_key (\<lambda>game. - date game)
             (filter (\<lambda>game. (home_team_id game = team \<or> away_team_id game = team) \<and>
                             home_team_pregame_elo game \<noteq> None) (games db)) of
        [] \<Rightarrow> Inr (Some ELO_INITIAL)
      | recent_game # _ \<Rightarrow>
          let elo = (if home_team_id recent_game = team
                     then home_team_pregame_elo recent_game
                     else away_team_pregame_elo recent_game)
          in (case (home_score recent_game, away_score recent_game) of
                (Some hs, Some as) \<Rightarrow>
                  (case elo of
                     None \<Rightarrow> Inl TypeError
                   | Some e \<Rightarrow>
                       if (home_team_id recent_game = team \<and> hs > as) \<or>
                          (away_team_id recent_game = team \<and> as > hs)
                       then Inr (Some (e + 15))
                       else Inr (Some (e - 15)))
              | _ \<Rightarrow> Inr elo))"

section \<open>Backtest simulator (src/backend/src/backtesting.py, run_profitability_simulation)\<close>

text \<open>
  The fitted scaler and classifier are external: \<open>model_win_proba\<close> stands for
  \<open>model.predict_proba(scaler.transform(X))[:, 1]\<close>, the win probability the classifier
  gives to a row of the test frame.
\<close>

record bet =
  bet_game_id :: string
  bet_team_id :: int
  bet_opponent_id :: int
  bet_is_home :: int
  bet_model_prob :: real
  bet_implied_prob :: real
  bet_edge :: real
  bet_moneyline :: int
  bet_result :: string
  bet_profit :: real

record simulation =
  total_bets :: int
  total_won :: int
  total_profit :: real
  bets_placed :: "bet list"

record simulation_result =
  res_total_bets :: int
  res_total_won :: int
  res_total_lost :: int
  res_win_rate :: real
  res_total_profit :: real
  res_roi :: real
  res_bets_placed :: "bet list"

text \<open>
  The odds lookup: the quotes of the test games, in query order, grouped by game id in
  a dictionary of lists.
\<close>

definition odds_lookup :: "Odds list \<Rightarrow> (string \<rightharpoonup> Odds list)" where
  "odds_lookup odds_query =
     fold (\<lambda>odds odds_dict.
             odds_dict(odds_game_id odds \<mapsto>
               (case odds_dict (odds_game_id odds) of None \<Rightarrow> [] | Some l \<Rightarrow> l) @ [odds]))
       odds_query Map.empty"

text \<open>
  The body of the loop over the test rows. A row without quotes, or whose first quote
  has no moneyline for the row's side, or whose edge is not above the threshold, is
  skipped (\<open>continue\<close>); a winning bet calls \<open>moneyline_to_payout\<close>, which can raise.
\<close>

definition simulate_row ::
  "(string \<rightharpoonup> Odds list) \<Rightarrow> (feature_row \<Rightarrow> real) \<Rightarrow> real \<Rightarrow> real \<Rightarrow>
   simulation \<Rightarrow> feature_row \<Rightarrow> error + simulation" where
  "simulate_row odds_dict model_win_proba edge_threshold bet_amount sim row =
     (let model_prob = model_win_proba row in
      case odds_dict (row_game_id row) of
        None \<Rightarrow> Inr sim
      | Some [] \<Rightarrow> Inr sim
      | Some (odds # _) \<Rightarrow>
          (case (if row_is_home row \<noteq> 0 then home_team_moneyline odds
                 else away_team_moneyline odds) of
             None \<Rightarrow> Inr sim
           | Some moneyline \<Rightarrow>
               let implied_prob = moneyline_to_implied_prob moneyline;
                   edge = model_prob - implied_prob
               in if edge > edge_threshold then
                    if target_did_win row = 1 then
                      (case moneyline_to_payout moneyline bet_amount of
                         Inl e \<Rightarrow> Inl e
                       | Inr payout \<Rightarrow>
                           let profit = payout - bet_amount
                           in Inr \<lparr>total_bets = total_bets sim + 1,
                                   total_won = total_won sim + 1,
                                   total_profit = total_profit sim + profit,
                                   bets_placed = bets_placed sim @
                                     [\<lparr>bet_game_id = row_game_id row,
                                       bet_team_id = row_team_id row,
                                       bet_opponent_id = opponent_id row,
                                       bet_is_home = row_is_home row,
                                       bet_model_prob = model_prob,
                                       bet_implied_prob = implied_prob,
                                       bet_edge = edge,
                                       bet_moneyline = moneyline,
                                       bet_result = ''WIN'',
                                       bet_profit = profit\<rparr>]\<rparr>)
                    else
                      let profit = - bet_amount
                      in Inr \<lparr>total_bets = total_bets sim + 1,
                              total_won = total_won sim,
                              total_profit = total_profit sim + profit,
                              bets_placed = bets_placed sim @
                                [\<lparr>bet_game_id = row_game_id row,
                                  bet_team_id = row_team_id row,
                                  bet_opponent_id = opponent_id row,
                                  bet_is_home = row_is_home row,
                                  bet_model_prob = model_prob,
                                  bet_implied_prob = implied_prob,
                                  bet_edge = edge,
                                  bet_moneyline = moneyline,
                                  bet_result = ''LOSS'',
                                  bet_profit = profit\<rparr>]\<rparr>
                  else Inr sim))"

fun simulate_rows ::
  "(string \<rightharpoonup> Odds list) \<Rightarrow> (feature_row \<Rightarrow> real) \<Rightarrow> real \<Rightarrow> real \<Rightarrow>
   simulation \<Rightarrow> feature_row list \<Rightarrow> error + simulation" where
  "simulate_rows odds_dict model_win_proba edge_threshold bet_amount sim [] = Inr sim"
| "simulate_rows odds_dict model_win_proba edge_threshold bet_amount sim (row # rest) =
     (case simulate_row odds_dict model_win_proba edge_threshold bet_amount sim row of
        Inl e \<Rightarrow> Inl e
      | Inr sim' \<Rightarrow> simulate_rows odds_dict model_win_proba edge_threshold bet_amount sim' rest)"

text \<open>
  The whole function: \<open>None\<close> for a season without rows, else the tally. The return on
  investment divides by \<open>total_bets * bet_amount\<close>, which raises ZeroDivisionError for a
  stake of 0 once a bet is placed.
\<close>

definition run_profitability_simulation ::
  "(feature_row \<Rightarrow> real) \<Rightarrow> database \<Rightarrow> feature_row list \<Rightarrow> int \<Rightarrow> real \<Rightarrow> real \<Rightarrow>
   error + simulation_result option" where
  "run_profitability_simulation model_win_proba db features_df test_season edge_threshold bet_amount =
     (let test_df = filter (\<lambda>row. row_season row = test_season) features_df
      in if length test_df = 0 then Inr None
         else
           let game_ids = remdups (map row_game_id test_df);
               odds_query = filter (\<lambda>odds. odds_game_id odds \<in> set game_ids) (odds_table db);
               odds_dict = odds_lookup odds_query
           in (case simulate_rows odds_dict model_win_proba edge_threshold bet_amount
                      \<lparr>total_bets = 0, total_won = 0, total_profit = 0, bets_placed = []\<rparr>
                      test_df of
                 Inl e \<Rightarrow> Inl e
               | Inr sim \<Rightarrow>
                   let win_rate = (if total_bets sim > 0
                                   then real_of_int (total_won sim) / real_of_int (total_bets sim) * 100
                                   else 0)
                   in if total_bets sim > 0 \<and> real_of_int (total_bets sim) * bet_amount = 0
                      then Inl ZeroDivisionError
                      else
                        let roi = (if total_bets sim > 0
                                   then total_profit sim / (real_of_int (total_bets sim) * bet_amount) * 100
                                   else 0)
                        in Inr (Some
                             \<lparr>res_total_bets = total_bets sim,
                              res_total_won = total_won sim,
                              res_total_lost = total_bets sim - total_won sim,
                              res_win_rate = win_rate,
                              res_total_profit = total_profit sim,
                              res_roi = roi,
                              res_bets_placed = bets_placed sim\<rparr>)))"

text \<open>
  The tally in words, for comparison with the loop above. The quote of a row is the
  first quote listed for its game (the quote policy of the specification's edge case),
  read on the row's side, whether or not that quote has a moneyline; a bet is placed
  when it has one and the edge exceeds the threshold; a winning bet earns the payout
  less the stake, a losing one costs the stake.
\<close>

definition spec_quote :: "database \<Rightarrow> feature_row \<Rightarrow> int option" where
  "spec_quote db row =
     (case filter (\<lambda>odds. odds_game_id odds = row_game_id row) (odds_table db) of
        [] \<Rightarrow> None
      | odds # _ \<Rightarrow> if row_is_home row \<noteq> 0 then home_team_moneyline odds
                    else away_team_moneyline odds)"

definition spec_bets ::
  "(feature_row \<Rightarrow> real) \<Rightarrow> database \<Rightarrow> real \<Rightarrow> feature_row list \<Rightarrow> (feature_row \<times> int) list" where
  "spec_bets model_win_proba db edge_threshold test_rows =
     List.map_filter (\<lambda>row.
        case spec_quote db row of
          None \<Rightarrow> None
        | Some moneyline \<Rightarrow>
            if model_win_proba row - moneyline_to_implied_prob moneyline > edge_threshold
            then Some (row, moneyline) else None) test_rows"

definition spec_payout :: "int \<Rightarrow> real \<Rightarrow> real" where
  "spec_payout m stake =
     (if m > 0 then stake * (1 + real_of_int m / 100)
      else stake * (1 + 100 / real_of_int \<bar>m\<bar>))"

definition spec_profit :: "real \<Rightarrow> feature_row \<times> int \<Rightarrow> real" where
  "spec_profit stake = (\<lambda>(row, moneyline).
     if target_did_win row = 1 then spec_payout moneyline stake - stake else - stake)"

definition spec_ledger_entry :: "(feature_row \<Rightarrow> real) \<Rightarrow> real \<Rightarrow> feature_row \<times> int \<Rightarrow> bet" where
  "spec_ledger_entry model_win_proba stake = (\<lambda>(row, moneyline).
     \<lparr>bet_game_id = row_game_id row,
      bet_team_id = row_team_id row,
      bet_opponent_id = opponent_id row,
      bet_is_home = row_is_home row,
      bet_model_prob = model_win_proba row,
      bet_implied_prob = moneyline_to_implied_prob moneyline,
      bet_edge = model_win_proba row - moneyline_to_implied_prob moneyline,
      bet_moneyline = moneyline,
      bet_result = (if target_did_win row = 1 then ''WIN'' else ''LOSS''),
      bet_profit = spec_profit stake (row, moneyline)\<rparr>)"

definition spec_simulation ::
  "(feature_row \<Rightarrow> real) \<Rightarrow> database \<Rightarrow> feature_row list \<Rightarrow> real \<Rightarrow> real \<Rightarrow> simulation_result" where
  "spec_simulation model_win_proba db test_rows edge_threshold stake =
     (let bets = spec_bets model_win_proba db edge_threshold test_rows;
          wins = filter (\<lambda>(row, moneyline). target_did_win row = 1) bets;
          profit = (\<Sum>b \<leftarrow> bets. spec_profit stake b)
      in \<lparr>res_total_bets = int (length bets),
          res_total_won = int (length wins),
          res_total_lost = int (length bets) - int (length wins),
          res_win_rate = (if bets = [] then 0
                          else real (length wins) / real (length bets) * 100),
          res_total_profit = profit,
          res_roi = (if bets = [] then 0
                     else profit / (real (length bets) * stake) * 100),
          res_bets_placed = map (spec_ledger_entry model_win_proba stake) bets\<rparr>)"

text \<open>The running tally after a further list of placed bets.\<close>

definition spec_tally ::
  "(feature_row \<Rightarrow> real) \<Rightarrow> real \<Rightarrow> simulation \<Rightarrow> (feature_row \<times> int) list \<Rightarrow> simulation" where
  "spec_tally model_win_proba stake sim bets =
     \<lparr>total_bets = total_bets sim + int (length bets),
      total_won = total_won sim +
        int (length (filter (\<lambda>(row, moneyline). target_did_win row = 1) bets)),
      total_profit = total_profit sim + (\<Sum>b \<leftarrow> bets. spec_profit stake b),
      bets_placed = bets_placed sim @ map (spec_ledger_entry model_win_proba stake) bets\<rparr>"

section \<open>Sample data\<close>

text \<open>
  Concrete teams, games, box scores and quotes for the instances below. A game is
  created without rating stamps, as the ingestion does.
\<close>

definition new_team :: "int \<Rightarrow> string \<Rightarrow> Team" where
  "new_team tid abbr = \<lparr>team_id = tid, team_name = abbr, team_abbreviation = abbr\<rparr>"

definition new_game :: "string \<Rightarrow> int \<Rightarrow> int \<Rightarrow> int \<Rightarrow> int option \<Rightarrow> int option \<Rightarrow> Game" where
  "new_game gid d home away hs as =
     \<lparr>game_id = gid, date = d, home_team_id = home, away_team_id = away,
      home_score = hs, away_score = as, season = 2024, game_type = ''regular'',
      home_team_pregame_elo = None, away_team_pregame_elo = None\<rparr>"

definition new_box_score :: "string \<Rightarrow> int \<Rightarrow> bool \<Rightarrow> int \<Rightarrow> int \<Rightarrow> TeamBoxScore" where
  "new_box_score gid team home p pm =
     \<lparr>bs_game_id = gid, bs_team_id = team, is_home = home, fg_pct = 45 / 100,
      trb = 40, ast = 25, tov = 12, pts = p, plus_minus = pm\<rparr>"

definition new_odds :: "string \<Rightarrow> int option \<Rightarrow> int option \<Rightarrow> Odds" where
  "new_odds gid home_ml away_ml =
     \<lparr>odds_game_id = gid, bookmaker = ''book'', home_team_moneyline = home_ml,
      away_team_moneyline = away_ml\<rparr>"

text \<open>One played game with its two box scores.\<close>

definition sample_db :: database where
  "sample_db =
     \<lparr>teams = [new_team 1 ''LAL'', new_team 2 ''BOS''],
      games = [new_game ''2024-01-15-LAL-BOS'' 738900 1 2 (Some 100) (Some 90)],
      team_box_scores = [new_box_score ''2024-01-15-LAL-BOS'' 1 True 100 10,
                         new_box_score ''2024-01-15-LAL-BOS'' 2 False 90 (- 10)],
      odds_table = []\<rparr>"

text \<open>The same database after the rating pass.\<close>

definition sample_db_rated :: database where
  "sample_db_rated =
     sample_db\<lparr>games := [(new_game ''2024-01-15-LAL-BOS'' 738900 1 2 (Some 100) (Some 90))
        \<lparr>home_team_pregame_elo := Some 1500, away_team_pregame_elo := Some 1500\<rparr>]\<rparr>"

text \<open>Two played games with their stamps, and a scheduled one.\<close>

definition sample_season_db :: database where
  "sample_season_db =
     \<lparr>teams = [new_team 1 ''LAL'', new_team 2 ''BOS''],
      games = [(new_game ''2024-01-15-LAL-BOS'' 738900 1 2 (Some 100) (Some 90))
                 \<lparr>home_team_pregame_elo := Some 1500, away_team_pregame_elo := Some 1500\<rparr>,
               (new_game ''2024-01-17-BOS-LAL'' 738902 2 1 (Some 95) (Some 99))
                 \<lparr>home_team_pregame_elo := Some 1490, away_team_pregame_elo := Some 1510\<rparr>,
               new_game ''2024-01-20-LAL-BOS'' 738905 1 2 None None],
      team_box_scores = [new_box_score ''2024-01-15-LAL-BOS'' 1 True 100 10,
                         new_box_score ''2024-01-15-LAL-BOS'' 2 False 90 (- 10)],
      odds_table = []\<rparr>"

text \<open>
  The synthetic three-row test set of the backtest: bet A (moneyline -150, edge 0.05,
  won), bet B (moneyline +120, edge 0.10, lost) and row C (edge 0.01, no bet), with a
  stake of 100 and a threshold of 0.03.
\<close>

definition sample_row :: "string \<Rightarrow> int \<Rightarrow> int \<Rightarrow> feature_row" where
  "sample_row gid home won =
     \<lparr>row_game_id = gid, row_team_id = 1, opponent_id = 2, row_is_home = home,
      target_did_win = won, target_win_margin = (if won = 1 then 5 else - 5),
      team_elo = 1500, opponent_elo = 1500, elo_diff = 0,
      avg_pts_scored_l10 = 0, avg_pts_allowed_l10 = 0, avg_fg_pct_l10 = 0, avg_tov_l10 = 0,
      avg_plus_minus_l10 = 0, avg_rebounds_l10 = 0, avg_assists_l10 = 0,
      opp_avg_pts_scored_l10 = 0, opp_avg_pts_allowed_l10 = 0, opp_avg_fg_pct_l10 = 0,
      opp_avg_tov_l10 = 0, opp_avg_plus_minus_l10 = 0, h2h_win_pct = 1 / 2,
      days_since_last_game = 3, opponent_days_since_last_game = 3, rest_advantage = 0,
      row_season = 2024, row_date = 738900\<rparr>"

definition synthetic_rows :: "feature_row list" where
  "synthetic_rows = [sample_row ''A'' 1 1, sample_row ''B'' 1 0, sample_row ''C'' 1 1]"

definition synthetic_db :: database where
  "synthetic_db =
     \<lparr>teams = [], games = [], team_box_scores = [],
      odds_table = [new_odds ''A'' (Some (- 150)) (Some 130),
                    new_odds ''B'' (Some 120) (Some (- 140)),
                    new_odds ''C'' (Some (- 110)) (Some (- 110))]\<rparr>"

definition synthetic_model :: "feature_row \<Rightarrow> real" where
  "synthetic_model row =
     (if row_game_id row = ''A'' then 65 / 100
      else if row_game_id row = ''B'' then 100 / 220 + 10 / 100
      else 110 / 210 + 1 / 100)"

text \<open>
  Two bookmakers quoting game A: the first row has no moneylines (no head-to-head
  market), the second has them.
\<close>

definition two_quote_db :: database where
  "two_quote_db =
     \<lparr>teams = [], games = [], team_box_scores = [],
      odds_table =
        [\<lparr>odds_game_id = ''A'', bookmaker = ''first'',
          home_team_moneyline = None, away_team_moneyline = None\<rparr>,
         \<lparr>odds_game_id = ''A'', bookmaker = ''second'',
          home_team_moneyline = Some (- 150), away_team_moneyline = Some 130\<rparr>]\<rparr>"

section \<open>Theorems\<close>

subsection \<open>Odds conversion\<close>

text \<open>
  Claim C8. The implied probability of a positive moneyline \<open>m\<close> is \<open>100 / (m + 100)\<close> and
  of a negative one \<open>|m| / (|m| + 100)\<close>; the payout of a winning bet is the stake plus
  the winnings (\<open>stake * m / 100\<close> for a positive moneyline, \<open>stake * 100 / |m|\<close> for a
  negative one); and at the four sample points the values are 0.4, 0.6, 250 and
  166.67 up to 0.01.
\<close>

theorem odds_conversion:
  "(0 < m \<longrightarrow> moneyline_to_implied_prob m = 100 / (real_of_int m + 100)) \<and>
   (m < 0 \<longrightarrow> moneyline_to_implied_prob m = real_of_int \<bar>m\<bar> / (real_of_int \<bar>m\<bar> + 100)) \<and>
   (0 < m \<longrightarrow> moneyline_to_payout m stake = Inr (stake + stake * real_of_int m / 100)) \<and>
   (m < 0 \<longrightarrow> moneyline_to_payout m stake = Inr (stake + stake * 100 / real_of_int \<bar>m\<bar>)) \<and>
   moneyline_to_implied_prob 150 = 4 / 10 \<and>
   moneyline_to_implied_prob (- 150) = 6 / 10 \<and>
   moneyline_to_payout 150 100 = Inr 250 \<and>
   (\<exists>p. moneyline_to_payout (- 150) 100 = Inr p \<and> \<bar>p - 16667 / 100\<bar> \<le> 1 / 100)"
proof -
  have pos: "0 < m \<Longrightarrow> moneyline_to_payout m stake = Inr (stake + stake * real_of_int m / 100)"
    by (simp add: moneyline_to_payout_def algebra_simps)
  have neg: "m < 0 \<Longrightarrow> moneyline_to_payout m stake = Inr (stake + stake * 100 / real_of_int \<bar>m\<bar>)"
    by (simp add: moneyline_to_payout_def algebra_simps)
  have s3: "moneyline_to_payout 150 100 = Inr 250"
    by (simp add: moneyline_to_payout_def)
  have s4: "moneyline_to_payout (- 150) 100 = Inr (500 / 3)"
    by (simp add: moneyline_to_payout_def)
  have s4': "\<exists>p. moneyline_to_payout (- 150) 100 = Inr p \<and> \<bar>p - 16667 / 100\<bar> \<le> 1 / 100"
    by (rule exI [of _ "500 / 3"]) (simp add: s4)
  show ?thesis
    using pos neg s3 s4' by (simp add: moneyline_to_implied_prob_def)
qed

theorem odds_conversion_witness:
  "moneyline_to_implied_prob 120 = 100 / 220 \<and>
   moneyline_to_implied_prob (- 110) = 110 / 210 \<and>
   moneyline_to_payout 120 50 = Inr 110 \<and>
   moneyline_to_payout (- 200) 50 = Inr 75"
  using odds_conversion [of 120 50] odds_conversion [of "- 200" 50] odds_conversion [of "- 110" 50]
  by simp

subsection \<open>Rating engine\<close>

lemma init_elo_ratings_fold:
  "fold (\<lambda>team elo. elo(team_id team \<mapsto> ELO_INITIAL)) ts m t =
     (if t \<in> team_id ` set ts then Some ELO_INITIAL else m t)"
  by (induction ts arbitrary: m) auto

lemma init_elo_ratings_apply:
  "init_elo_ratings ts t = (if t \<in> team_id ` set ts then Some ELO_INITIAL else None)"
  by (simp add: init_elo_ratings_def init_elo_ratings_fold)

lemma dom_init_elo_ratings: "dom (init_elo_ratings ts) = team_id ` set ts"
  by (auto simp: init_elo_ratings_apply dom_def)

lemma calculate_elo_step_KeyError:
  "elo (home_team_id game) = None \<or> elo (away_team_id game) = None \<Longrightarrow>
   calculate_elo_step elo game = Inl KeyError"
  by (auto simp: calculate_elo_step_def split: option.splits)

lemma calculate_elo_step_scheduled:
  assumes "elo (home_team_id game) = Some rHome" "elo (away_team_id game) = Some rAway"
    and "home_score game = None \<or> away_score game = None"
  shows "calculate_elo_step elo game =
     Inr (elo, game\<lparr>home_team_pregame_elo := Some rHome, away_team_pregame_elo := Some rAway\<rparr>)"
  using assms by (auto simp: calculate_elo_step_def Let_def split: option.splits)

lemma calculate_elo_step_result:
  assumes "elo (home_team_id game) = Some rHome" "elo (away_team_id game) = Some rAway"
    and "home_score game = Some hs" "away_score game = Some as"
  shows "calculate_elo_step elo game =
     Inr (elo(home_team_id game \<mapsto> rHome + ELO_K_FACTOR *
               ((if hs > as then 1 else if hs < as then 0 else 1 / 2)
                 - 1 / (1 + 10 powr ((rAway - (rHome + ELO_HOME_ADVANTAGE)) / 400))),
              away_team_id game \<mapsto> rAway + ELO_K_FACTOR *
               ((if hs > as then 0 else if hs < as then 1 else 1 / 2)
                 - (1 - 1 / (1 + 10 powr ((rAway - (rHome + ELO_HOME_ADVANTAGE)) / 400))))),
          game\<lparr>home_team_pregame_elo := Some rHome, away_team_pregame_elo := Some rAway\<rparr>)"
  using assms by (simp add: calculate_elo_step_def Let_def)

lemma calculate_elo_step_dom:
  "calculate_elo_step elo game = Inr (elo', game') \<Longrightarrow> dom elo' = dom elo"
  by (auto simp: calculate_elo_step_def Let_def split: option.splits if_splits)

lemma calculate_elo_step_registered:
  "calculate_elo_step elo game = Inr (elo', game') \<Longrightarrow>
   home_team_id game \<in> dom elo \<and> away_team_id game \<in> dom elo"
  by (auto simp: calculate_elo_step_def split: option.splits)

lemma calculate_elo_loop_append:
  "calculate_elo_loop elo (xs @ ys) =
     (case calculate_elo_loop elo xs of
        Inl e \<Rightarrow> Inl e
      | Inr (elo1, sx) \<Rightarrow>
          (case calculate_elo_loop elo1 ys of
             Inl e \<Rightarrow> Inl e
           | Inr (elo2, sy) \<Rightarrow> Inr (elo2, sx @ sy)))"
  by (induction xs arbitrary: elo) (auto split: sum.splits)

lemma calculate_elo_loop_length:
  "calculate_elo_loop elo gs = Inr (elo', out) \<Longrightarrow> length out = length gs"
  by (induction gs arbitrary: elo out) (auto split: sum.splits)

lemma calculate_elo_loop_dom:
  "calculate_elo_loop elo gs = Inr (elo', out) \<Longrightarrow> dom elo' = dom elo"
proof (induction gs arbitrary: elo out)
  case Nil
  then show ?case by simp
next
  case (Cons g gs)
  from Cons.prems obtain elo1 g1 out1 where
    s: "calculate_elo_step elo g = Inr (elo1, g1)" and l: "calculate_elo_loop elo1 gs = Inr (elo', out1)"
    by (auto split: sum.splits)
  have "dom elo' = dom elo1" using l by (rule Cons.IH)
  also have "dom elo1 = dom elo" using s by (rule calculate_elo_step_dom)
  finally show ?case .
qed

lemma calculate_elo_loop_total:
  "\<forall>g \<in> set gs. home_team_id g \<in> dom elo \<and> away_team_id g \<in> dom elo \<Longrightarrow>
   \<exists>elo' out. calculate_elo_loop elo gs = Inr (elo', out)"
proof (induction gs arbitrary: elo)
  case Nil
  then show ?case by simp
next
  case (Cons g gs)
  from Cons.prems obtain rh ra where r: "elo (home_team_id g) = Some rh" "elo (away_team_id g) = Some ra"
    by auto
  obtain elo1 g1 where s: "calculate_elo_step elo g = Inr (elo1, g1)"
    using r by (cases "home_score g"; cases "away_score g")
      (auto simp: calculate_elo_step_scheduled calculate_elo_step_result)
  have "dom elo1 = dom elo" using s by (rule calculate_elo_step_dom)
  with Cons.prems have "\<forall>g \<in> set gs. home_team_id g \<in> dom elo1 \<and> away_team_id g \<in> dom elo1"
    by simp
  from Cons.IH [OF this] obtain elo' out where "calculate_elo_loop elo1 gs = Inr (elo', out)"
    by blast
  with s show ?case by simp
qed

lemma sum_two_updates:
  fixes f g :: "int \<Rightarrow> real"
  assumes fin: "finite D" and h: "h \<in> D" and a: "a \<in> D" and ne: "h \<noteq> a"
    and same: "\<And>t. t \<noteq> h \<Longrightarrow> t \<noteq> a \<Longrightarrow> g t = f t"
    and bal: "g h + g a = f h + f a"
  shows "sum g D = sum f D"
proof -
  have a': "a \<in> D - {h}" using a ne by simp
  have fin': "finite (D - {h})" using fin by simp
  have "sum g D = g h + (g a + sum g (D - {h} - {a}))"
    using sum.remove [OF fin h, of g] sum.remove [OF fin' a', of g] by simp
  moreover have "sum f D = f h + (f a + sum f (D - {h} - {a}))"
    using sum.remove [OF fin h, of f] sum.remove [OF fin' a', of f] by simp
  moreover have "sum g (D - {h} - {a}) = sum f (D - {h} - {a})"
    by (rule sum.cong) (auto simp: same)
  ultimately show ?thesis using bal by simp
qed

lemma calculate_elo_step_sum:
  assumes fin: "finite (dom elo)" and ne: "home_team_id game \<noteq> away_team_id game"
    and step: "calculate_elo_step elo game = Inr (elo', game')"
  shows "(\<Sum>t \<in> dom elo'. the (elo' t)) = (\<Sum>t \<in> dom elo. the (elo t))"
proof -
  have D: "dom elo' = dom elo" using step by (rule calculate_elo_step_dom)
  from calculate_elo_step_registered [OF step] obtain rh ra where
    r: "elo (home_team_id game) = Some rh" "elo (away_team_id game) = Some ra"
    by auto
  show ?thesis
  proof (cases "home_score game = None \<or> away_score game = None")
    case True
    from calculate_elo_step_scheduled [OF r True] step have "elo' = elo" by simp
    then show ?thesis by simp
  next
    case False
    then obtain hs as where sc: "home_score game = Some hs" "away_score game = Some as"
      by auto
    have "(\<Sum>t \<in> dom elo. the (elo' t)) = (\<Sum>t \<in> dom elo. the (elo t))"
    proof (rule sum_two_updates [OF fin _ _ ne])
      show "home_team_id game \<in> dom elo" "away_team_id game \<in> dom elo"
        using r by auto
      show "\<And>t. t \<noteq> home_team_id game \<Longrightarrow> t \<noteq> away_team_id game \<Longrightarrow> the (elo' t) = the (elo t)"
        using step calculate_elo_step_result [OF r sc] by auto
      show "the (elo' (home_team_id game)) + the (elo' (away_team_id game)) =
            the (elo (home_team_id game)) + the (elo (away_team_id game))"
        using step calculate_elo_step_result [OF r sc] ne r
        by (auto simp: algebra_simps)
    qed
    with D show ?thesis by simp
  qed
qed

lemma calculate_elo_loop_sum:
  assumes "finite (dom elo)" "\<forall>g \<in> set gs. home_team_id g \<noteq> away_team_id g"
    and "calculate_elo_loop elo gs = Inr (elo', out)"
  shows "(\<Sum>t \<in> dom elo'. the (elo' t)) = (\<Sum>t \<in> dom elo. the (elo t))"
  using assms
proof (induction gs arbitrary: elo out)
  case Nil
  then show ?case by simp
next
  case (Cons g gs)
  from Cons.prems(3) obtain elo1 g1 out1 where
    s: "calculate_elo_step elo g = Inr (elo1, g1)" and l: "calculate_elo_loop elo1 gs = Inr (elo', out1)"
    by (auto split: sum.splits)
  have fin1: "finite (dom elo1)" using calculate_elo_step_dom [OF s] Cons.prems(1) by simp
  have "(\<Sum>t \<in> dom elo'. the (elo' t)) = (\<Sum>t \<in> dom elo1. the (elo1 t))"
    using Cons.IH [OF fin1 _ l] Cons.prems(2) by simp
  also have "\<dots> = (\<Sum>t \<in> dom elo. the (elo t))"
    using calculate_elo_step_sum [OF Cons.prems(1) _ s] Cons.prems(2) by simp
  finally show ?case .
qed

text \<open>
  In the exact arithmetic of this model the two rating changes of a game with a result
  are opposite: the step writes \<open>rHome + d\<close> and \<open>rAway - d\<close> with
  \<open>d = ELO_K_FACTOR * (actualHome - expectedHome)\<close>, whatever the home advantage is, and
  over games each between two different teams the sum of the ratings is kept. This is
  a fact about the real-valued expressions only: the source evaluates them in IEEE
  doubles, where \<open>1.0 - (1 - e)\<close> need not be \<open>e\<close>, and the rounding of the two changes is
  not represented here.
\<close>

lemma rating_deltas_opposite_exact:
  "(calculate_elo_step elo game = Inr (elo1, game1) \<and>
      home_score game = Some hs \<and> away_score game = Some as \<longrightarrow>
      (\<exists>rHome rAway d. elo (home_team_id game) = Some rHome \<and> elo (away_team_id game) = Some rAway \<and>
         d = ELO_K_FACTOR * ((if hs > as then 1 else if hs < as then 0 else 1 / 2)
               - 1 / (1 + 10 powr ((rAway - (rHome + ELO_HOME_ADVANTAGE)) / 400))) \<and>
         elo1 = elo(home_team_id game \<mapsto> rHome + d, away_team_id game \<mapsto> rAway + (- d)))) \<and>
   (finite (dom elo) \<and> (\<forall>g \<in> set gs. home_team_id g \<noteq> away_team_id g) \<and>
      calculate_elo_loop elo gs = Inr (elo', out) \<longrightarrow>
      dom elo' = dom elo \<and> (\<Sum>t \<in> dom elo'. the (elo' t)) = (\<Sum>t \<in> dom elo. the (elo t)))"
proof (intro conjI impI)
  assume a: "calculate_elo_step elo game = Inr (elo1, game1) \<and>
      home_score game = Some hs \<and> away_score game = Some as"
  from calculate_elo_step_registered [of elo game elo1 game1] a obtain rh ra where
    r: "elo (home_team_id game) = Some rh" "elo (away_team_id game) = Some ra"
    by auto
  have "elo1 = elo(home_team_id game \<mapsto> rh + ELO_K_FACTOR * ((if hs > as then 1 else if hs < as then 0 else 1 / 2)
               - 1 / (1 + 10 powr ((ra - (rh + ELO_HOME_ADVANTAGE)) / 400))),
        away_team_id game \<mapsto> ra + (- (ELO_K_FACTOR * ((if hs > as then 1 else if hs < as then 0 else 1 / 2)
               - 1 / (1 + 10 powr ((ra - (rh + ELO_HOME_ADVANTAGE)) / 400))))))"
    using a calculate_elo_step_result [OF r, of hs as] by (auto simp: algebra_simps)
  with r show "\<exists>rHome rAway d. elo (home_team_id game) = Some rHome \<and> elo (away_team_id game) = Some rAway \<and>
         d = ELO_K_FACTOR * ((if hs > as then 1 else if hs < as then 0 else 1 / 2)
               - 1 / (1 + 10 powr ((rAway - (rHome + ELO_HOME_ADVANTAGE)) / 400))) \<and>
         elo1 = elo(home_team_id game \<mapsto> rHome + d, away_team_id game \<mapsto> rAway + (- d))"
    by blast
next
  assume a: "finite (dom elo) \<and> (\<forall>g \<in> set gs. home_team_id g \<noteq> away_team_id g) \<and>
      calculate_elo_loop elo gs = Inr (elo', out)"
  then show "dom elo' = dom elo" using calculate_elo_loop_dom [of elo gs elo' out] by blast
  from a show "(\<Sum>t \<in> dom elo'. the (elo' t)) = (\<Sum>t \<in> dom elo. the (elo t))"
    using calculate_elo_loop_sum [of elo gs elo' out] by blast
qed

lemma calculate_elo_step_other:
  assumes "calculate_elo_step elo game = Inr (elo', game')"
    and "home_score game = None \<or> away_score game = None \<or>
         (home_team_id game \<noteq> t \<and> away_team_id game \<noteq> t)"
  shows "elo' t = elo t"
proof -
  from calculate_elo_step_registered [OF assms(1)] obtain rh ra where
    r: "elo (home_team_id game) = Some rh" "elo (away_team_id game) = Some ra"
    by auto
  show ?thesis
  proof (cases "home_score game = None \<or> away_score game = None")
    case True
    from calculate_elo_step_scheduled [OF r True] assms(1) show ?thesis by simp
  next
    case False
    then obtain hs as where sc: "home_score game = Some hs" "away_score game = Some as"
      by auto
    from False assms(2) have "home_team_id game \<noteq> t" "away_team_id game \<noteq> t" by auto
    then show ?thesis
      using assms(1) calculate_elo_step_result [OF r sc] by auto
  qed
qed

lemma calculate_elo_loop_other:
  assumes "calculate_elo_loop elo gs = Inr (elo', out)"
    and "\<forall>g \<in> set gs. home_score g = None \<or> away_score g = None \<or>
           (home_team_id g \<noteq> t \<and> away_team_id g \<noteq> t)"
  shows "elo' t = elo t"
  using assms
proof (induction gs arbitrary: elo out)
  case Nil
  then show ?case by simp
next
  case (Cons g gs)
  from Cons.prems(1) obtain elo1 g1 out1 where
    s: "calculate_elo_step elo g = Inr (elo1, g1)" and l: "calculate_elo_loop elo1 gs = Inr (elo', out1)"
    by (auto split: sum.splits)
  have "elo' t = elo1 t" using Cons.IH [OF l] Cons.prems(2) by simp
  also have "elo1 t = elo t" using calculate_elo_step_other [OF s] Cons.prems(2) by simp
  finally show ?case .
qed

lemma calculate_elo_step_stamp:
  assumes "calculate_elo_step elo game = Inr (elo', game')"
  shows "game' = game\<lparr>home_team_pregame_elo := elo (home_team_id game),
                        away_team_pregame_elo := elo (away_team_id game)\<rparr>"
  using assms
  by (auto simp: calculate_elo_step_def Let_def split: option.splits if_splits)

lemma calculate_elo_loop_nth:
  assumes "calculate_elo_loop elo gs = Inr (elo', out)" and "i < length gs"
  shows "\<exists>elo_i. calculate_elo_loop elo (take i gs) = Inr (elo_i, take i out) \<and>
           out ! i = (gs ! i)\<lparr>home_team_pregame_elo := elo_i (home_team_id (gs ! i)),
                               away_team_pregame_elo := elo_i (away_team_id (gs ! i))\<rparr>"
proof -
  have split: "gs = take i gs @ (gs ! i # drop (Suc i) gs)"
    using assms(2) by (simp add: id_take_nth_drop)
  from assms(1) have "calculate_elo_loop elo (take i gs @ (gs ! i # drop (Suc i) gs)) = Inr (elo', out)"
    using split by simp
  then obtain elo_i sx elo2 sy where
    a: "calculate_elo_loop elo (take i gs) = Inr (elo_i, sx)" and
    b: "calculate_elo_loop elo_i (gs ! i # drop (Suc i) gs) = Inr (elo2, sy)" and
    c: "out = sx @ sy"
    unfolding calculate_elo_loop_append by (auto split: sum.splits)
  from b obtain elo3 g' sz where
    d: "calculate_elo_step elo_i (gs ! i) = Inr (elo3, g')" and e: "sy = g' # sz"
    by (auto split: sum.splits)
  have len: "length sx = i"
    using calculate_elo_loop_length [OF a] assms(2) by simp
  have "take i out = sx" using c len by simp
  moreover have "out ! i = g'" using c e len by (simp add: nth_append)
  ultimately show ?thesis
    using a calculate_elo_step_stamp [OF d] by simp
qed

text \<open>
  Claim C1. A game that the rating pass reaches is stamped with the two current ratings
  whether or not it has a result. When it has one, the expected home score is
  \<open>1 / (1 + 10 powr ((rAway - (rHome + ELO_HOME_ADVANTAGE)) / 400))\<close>, the actual scores
  are 1 and 0 for a decisive result and 1/2 each for a tie, and each side's rating moves
  by \<open>ELO_K_FACTOR * (actual - expected)\<close>, the away side's expected score being one
  minus the home side's. (The away rating is written last, so the home formula is
  stated for a game between two different teams.)
\<close>

theorem rating_step_formula:
  assumes reached: "calculate_elo_loop elo0 xs = Inr (elo, sx)"
    and home: "elo (home_team_id game) = Some rHome"
    and away: "elo (away_team_id game) = Some rAway"
  shows "\<exists>elo'.
     calculate_elo_loop elo0 (xs @ [game]) =
       Inr (elo', sx @ [game\<lparr>home_team_pregame_elo := Some rHome,
                              away_team_pregame_elo := Some rAway\<rparr>]) \<and>
     calculate_elo_loop elo0 (xs @ game # ys) =
       (case calculate_elo_loop elo' ys of
          Inl e \<Rightarrow> Inl e
        | Inr (elo'', sy) \<Rightarrow>
            Inr (elo'', sx @ game\<lparr>home_team_pregame_elo := Some rHome,
                                   away_team_pregame_elo := Some rAway\<rparr> # sy)) \<and>
     (home_score game = None \<or> away_score game = None \<longrightarrow> elo' = elo) \<and>
     (\<forall>hs as. home_score game = Some hs \<and> away_score game = Some as \<longrightarrow>
        (let expectedHome = 1 / (1 + 10 powr ((rAway - (rHome + ELO_HOME_ADVANTAGE)) / 400));
             actualHome = (if hs > as then 1 else if hs < as then 0 else 1 / 2);
             actualAway = (if hs > as then 0 else if hs < as then 1 else 1 / 2)
         in elo' (away_team_id game) =
              Some (rAway + ELO_K_FACTOR * (actualAway - (1 - expectedHome))) \<and>
            (home_team_id game \<noteq> away_team_id game \<longrightarrow>
               elo' (home_team_id game) =
                 Some (rHome + ELO_K_FACTOR * (actualHome - expectedHome))) \<and>
            (\<forall>t. t \<noteq> home_team_id game \<and> t \<noteq> away_team_id game \<longrightarrow> elo' t = elo t)))"
proof -
  let ?g' = "game\<lparr>home_team_pregame_elo := Some rHome, away_team_pregame_elo := Some rAway\<rparr>"
  obtain elo' where step: "calculate_elo_step elo game = Inr (elo', ?g')"
    using home away
    by (cases "home_score game"; cases "away_score game")
      (auto simp: calculate_elo_step_scheduled calculate_elo_step_result)
  have one: "calculate_elo_loop elo0 (xs @ [game]) = Inr (elo', sx @ [?g'])"
    by (simp add: calculate_elo_loop_append reached step)
  have more: "calculate_elo_loop elo0 (xs @ game # ys) =
       (case calculate_elo_loop elo' ys of
          Inl e \<Rightarrow> Inl e
        | Inr (elo'', sy) \<Rightarrow> Inr (elo'', sx @ ?g' # sy))"
    by (simp add: calculate_elo_loop_append reached step split: sum.splits)
  have sched: "home_score game = None \<or> away_score game = None \<longrightarrow> elo' = elo"
    using step calculate_elo_step_scheduled [OF home away] by auto
  have res: "\<forall>hs as. home_score game = Some hs \<and> away_score game = Some as \<longrightarrow>
        (let expectedHome = 1 / (1 + 10 powr ((rAway - (rHome + ELO_HOME_ADVANTAGE)) / 400));
             actualHome = (if hs > as then 1 else if hs < as then 0 else 1 / 2);
             actualAway = (if hs > as then 0 else if hs < as then 1 else 1 / 2)
         in elo' (away_team_id game) =
              Some (rAway + ELO_K_FACTOR * (actualAway - (1 - expectedHome))) \<and>
            (home_team_id game \<noteq> away_team_id game \<longrightarrow>
               elo' (home_team_id game) =
                 Some (rHome + ELO_K_FACTOR * (actualHome - expectedHome))) \<and>
            (\<forall>t. t \<noteq> home_team_id game \<and> t \<noteq> away_team_id game \<longrightarrow> elo' t = elo t))"
  proof (intro allI impI)
    fix hs as
    assume sc: "home_score game = Some hs \<and> away_score game = Some as"
    have "elo' = elo(home_team_id game \<mapsto> rHome + ELO_K_FACTOR *
               ((if hs > as then 1 else if hs < as then 0 else 1 / 2)
                 - 1 / (1 + 10 powr ((rAway - (rHome + ELO_HOME_ADVANTAGE)) / 400))),
              away_team_id game \<mapsto> rAway + ELO_K_FACTOR *
               ((if hs > as then 0 else if hs < as then 1 else 1 / 2)
                 - (1 - 1 / (1 + 10 powr ((rAway - (rHome + ELO_HOME_ADVANTAGE)) / 400)))))"
      using step calculate_elo_step_result [OF home away, of hs as] sc by simp
    then show "let expectedHome = 1 / (1 + 10 powr ((rAway - (rHome + ELO_HOME_ADVANTAGE)) / 400));
             actualHome = (if hs > as then 1 else if hs < as then 0 else 1 / 2);
             actualAway = (if hs > as then 0 else if hs < as then 1 else 1 / 2)
         in elo' (away_team_id game) =
              Some (rAway + ELO_K_FACTOR * (actualAway - (1 - expectedHome))) \<and>
            (home_team_id game \<noteq> away_team_id game \<longrightarrow>
               elo' (home_team_id game) =
                 Some (rHome + ELO_K_FACTOR * (actualHome - expectedHome))) \<and>
            (\<forall>t. t \<noteq> home_team_id game \<and> t \<noteq> away_team_id game \<longrightarrow> elo' t = elo t)"
      by (simp add: Let_def)
  qed
  show ?thesis
    using one more sched res by (intro exI [of _ elo'] conjI)
qed

theorem rating_step_formula_witness:
  "\<exists>elo'. calculate_elo_loop [1 \<mapsto> 1500, 2 \<mapsto> 1600]
             [new_game ''2024-01-15-LAL-BOS'' 738900 1 2 (Some 100) (Some 90)] =
           Inr (elo', [(new_game ''2024-01-15-LAL-BOS'' 738900 1 2 (Some 100) (Some 90))
                        \<lparr>home_team_pregame_elo := Some 1500, away_team_pregame_elo := Some 1600\<rparr>]) \<and>
         elo' 1 = Some 1510 \<and> elo' 2 = Some 1590 \<and> elo' 3 = None"
proof -
  let ?m = "[1 \<mapsto> 1500, 2 \<mapsto> 1600] :: elo_ratings"
  let ?g = "new_game ''2024-01-15-LAL-BOS'' 738900 1 2 (Some 100) (Some 90)"
  have r: "calculate_elo_loop ?m [] = Inr (?m, [])" by simp
  have h: "?m (home_team_id ?g) = Some 1500" by (simp add: new_game_def)
  have a: "?m (away_team_id ?g) = Some 1600" by (simp add: new_game_def)
  from rating_step_formula [OF r h a, of "[]"] obtain elo' where
    1: "calculate_elo_loop ?m ([] @ [?g]) =
          Inr (elo', [] @ [?g\<lparr>home_team_pregame_elo := Some 1500, away_team_pregame_elo := Some 1600\<rparr>])"
    and 2: "\<forall>hs as. home_score ?g = Some hs \<and> away_score ?g = Some as \<longrightarrow>
        (let expectedHome = 1 / (1 + 10 powr ((1600 - (1500 + ELO_HOME_ADVANTAGE)) / 400));
             actualHome = (if hs > as then 1 else if hs < as then 0 else 1 / 2);
             actualAway = (if hs > as then 0 else if hs < as then 1 else 1 / 2)
         in elo' (away_team_id ?g) =
              Some (1600 + ELO_K_FACTOR * (actualAway - (1 - expectedHome))) \<and>
            (home_team_id ?g \<noteq> away_team_id ?g \<longrightarrow>
               elo' (home_team_id ?g) =
                 Some (1500 + ELO_K_FACTOR * (actualHome - expectedHome))) \<and>
            (\<forall>t. t \<noteq> home_team_id ?g \<and> t \<noteq> away_team_id ?g \<longrightarrow> elo' t = ?m t))"
    by blast
  from 2 have 3: "elo' 1 = Some 1510 \<and> elo' 2 = Some 1590 \<and> elo' 3 = None"
    by (simp add: new_game_def ELO_K_FACTOR_def ELO_HOME_ADVANTAGE_def)
  from 1 have 4: "calculate_elo_loop ?m [?g] =
          Inr (elo', [?g\<lparr>home_team_pregame_elo := Some 1500, away_team_pregame_elo := Some 1600\<rparr>])"
    by (simp only: append_Nil)
  from 3 4 show ?thesis by (intro exI [of _ elo'] conjI) blast+
qed

text \<open>
  Claim C6. Processing a game without a recorded result (a score is missing) stamps it
  and leaves the rating dictionary as it was. Consequently, putting such a game of
  registered teams anywhere into the sequence changes neither the ratings the pass ends
  with nor the stamped copy of any other game (and a pass that raises without it raises
  the same error with it).
\<close>

theorem scheduled_game_frame:
  assumes sched: "home_score game = None \<or> away_score game = None"
    and reg: "home_team_id game \<in> dom elo" "away_team_id game \<in> dom elo"
  shows "(\<exists>game'. calculate_elo_step elo game = Inr (elo, game')) \<and>
         (case calculate_elo_loop elo (xs @ ys) of
            Inl e \<Rightarrow> calculate_elo_loop elo (xs @ game # ys) = Inl e
          | Inr (elo', out) \<Rightarrow>
              \<exists>game'. calculate_elo_loop elo (xs @ game # ys) =
                Inr (elo', take (length xs) out @ game' # drop (length xs) out))"
proof
  from reg obtain rh ra where "elo (home_team_id game) = Some rh" "elo (away_team_id game) = Some ra"
    by auto
  from calculate_elo_step_scheduled [OF this sched]
  show "\<exists>game'. calculate_elo_step elo game = Inr (elo, game')" by blast
next
  show "case calculate_elo_loop elo (xs @ ys) of
            Inl e \<Rightarrow> calculate_elo_loop elo (xs @ game # ys) = Inl e
          | Inr (elo', out) \<Rightarrow>
              \<exists>game'. calculate_elo_loop elo (xs @ game # ys) =
                Inr (elo', take (length xs) out @ game' # drop (length xs) out)"
  proof (cases "calculate_elo_loop elo xs")
    case (Inl e)
    then show ?thesis by (simp add: calculate_elo_loop_append)
  next
    case (Inr p)
    then obtain elo1 sx where pre: "calculate_elo_loop elo xs = Inr (elo1, sx)"
      by (cases p) simp
    have len: "length sx = length xs" using pre by (rule calculate_elo_loop_length)
    have "dom elo1 = dom elo" using pre by (rule calculate_elo_loop_dom)
    with reg have "home_team_id game \<in> dom elo1" "away_team_id game \<in> dom elo1"
      by simp_all
    then obtain rh ra where
      r: "elo1 (home_team_id game) = Some rh" "elo1 (away_team_id game) = Some ra"
      by auto
    note step = calculate_elo_step_scheduled [OF r sched]
    show ?thesis
    proof (cases "calculate_elo_loop elo1 ys")
      case (Inl e)
      then show ?thesis by (simp add: calculate_elo_loop_append pre step)
    next
      case (Inr q)
      then obtain elo2 sy where post: "calculate_elo_loop elo1 ys = Inr (elo2, sy)"
        by (cases q) simp
      show ?thesis
        by (simp add: calculate_elo_loop_append pre step post len)
    qed
  qed
qed

theorem scheduled_game_frame_witness:
  "\<exists>elo' g1 g2 g3.
     calculate_elo_loop [1 \<mapsto> 1500, 2 \<mapsto> 1600]
       [new_game ''2024-01-15-LAL-BOS'' 738900 1 2 (Some 100) (Some 90),
        new_game ''2024-01-17-LAL-BOS'' 738902 1 2 (Some 95) (Some 99)] = Inr (elo', [g1, g3]) \<and>
     calculate_elo_loop [1 \<mapsto> 1500, 2 \<mapsto> 1600]
       [new_game ''2024-01-15-LAL-BOS'' 738900 1 2 (Some 100) (Some 90),
        new_game ''2024-01-16-BOS-LAL'' 738901 2 1 None None,
        new_game ''2024-01-17-LAL-BOS'' 738902 1 2 (Some 95) (Some 99)] = Inr (elo', [g1, g2, g3])"
proof -
  let ?m = "[1 \<mapsto> 1500, 2 \<mapsto> 1600] :: elo_ratings"
  let ?a = "new_game ''2024-01-15-LAL-BOS'' 738900 1 2 (Some 100) (Some 90)"
  let ?s = "new_game ''2024-01-16-BOS-LAL'' 738901 2 1 None None"
  let ?b = "new_game ''2024-01-17-LAL-BOS'' 738902 1 2 (Some 95) (Some 99)"
  have sched: "home_score ?s = None \<or> away_score ?s = None" by (simp add: new_game_def)
  have reg: "home_team_id ?s \<in> dom ?m" "away_team_id ?s \<in> dom ?m" by (simp_all add: new_game_def)
  have "\<forall>g \<in> set ([?a] @ [?b]). home_team_id g \<in> dom ?m \<and> away_team_id g \<in> dom ?m"
    by (simp add: new_game_def)
  from calculate_elo_loop_total [OF this] obtain elo' out where
    run: "calculate_elo_loop ?m ([?a] @ [?b]) = Inr (elo', out)"
    by blast
  from calculate_elo_loop_length [OF run] obtain g1 g3 where out: "out = [g1, g3]"
    by (cases out; cases "tl out") auto
  from scheduled_game_frame [OF sched reg, of "[?a]" "[?b]"] run out obtain g2 where
    "calculate_elo_loop ?m ([?a] @ ?s # [?b]) = Inr (elo', [g1, g2, g3])"
    by auto
  with run out show ?thesis
    by (intro exI [of _ elo'] exI [of _ g1] exI [of _ g2] exI [of _ g3]) simp
qed

text \<open>
  Claim C5, as stated, fails: the dictionary holds the teams of the team table only, so a
  game of a team that is not in the table raises KeyError.
\<close>

theorem unregistered_team_KeyError:
  "calculate_elo_ratings
     \<lparr>teams = [new_team 1 ''LAL''],
      games = [new_game ''2024-01-15-LAL-BOS'' 738900 1 2 (Some 100) (Some 90)],
      team_box_scores = [], odds_table = []\<rparr> = Inl KeyError"
  by (simp add: calculate_elo_ratings_def rating_pass_def ordered_games_def
      init_elo_ratings_def calculate_elo_step_def new_team_def new_game_def)

text \<open>
  Claim C5, amended. When the home and away team of every game are in the team table, the
  rating pass returns (it raises nothing), stamps every game, and a team none of whose
  earlier games has a result is stamped with \<open>ELO_INITIAL\<close> in the game at hand.
\<close>

theorem rating_pass_registered:
  assumes reg: "\<forall>game \<in> set (games db).
      home_team_id game \<in> team_id ` set (teams db) \<and>
      away_team_id game \<in> team_id ` set (teams db)"
  shows "\<exists>elo out.
     rating_pass db = Inr (elo, out) \<and>
     calculate_elo_ratings db = Inr (db\<lparr>games := out\<rparr>) \<and>
     length out = length (ordered_games db) \<and>
     (\<forall>i t. i < length out \<and>
        (\<forall>j < i. home_score (ordered_games db ! j) = None \<or>
                  away_score (ordered_games db ! j) = None \<or>
                  (home_team_id (ordered_games db ! j) \<noteq> t \<and>
                   away_team_id (ordered_games db ! j) \<noteq> t)) \<longrightarrow>
        (home_team_id (ordered_games db ! i) = t \<longrightarrow>
           home_team_pregame_elo (out ! i) = Some ELO_INITIAL) \<and>
        (away_team_id (ordered_games db ! i) = t \<longrightarrow>
           away_team_pregame_elo (out ! i) = Some ELO_INITIAL))"
proof -
  let ?gs = "ordered_games db"
  let ?e0 = "init_elo_ratings (teams db)"
  have set_gs: "set ?gs = set (games db)" by (simp add: ordered_games_def)
  have "\<forall>g \<in> set ?gs. home_team_id g \<in> dom ?e0 \<and> away_team_id g \<in> dom ?e0"
    using reg by (simp add: set_gs dom_init_elo_ratings)
  from calculate_elo_loop_total [OF this] obtain elo out where
    run: "calculate_elo_loop ?e0 ?gs = Inr (elo, out)"
    by blast
  have pass: "rating_pass db = Inr (elo, out)" by (simp add: rating_pass_def run)
  have calc: "calculate_elo_ratings db = Inr (db\<lparr>games := out\<rparr>)"
    by (simp add: calculate_elo_ratings_def pass)
  have len: "length out = length ?gs" using run by (rule calculate_elo_loop_length)
  have first: "\<forall>i t. i < length out \<and>
        (\<forall>j < i. home_score (?gs ! j) = None \<or> away_score (?gs ! j) = None \<or>
                  (home_team_id (?gs ! j) \<noteq> t \<and> away_team_id (?gs ! j) \<noteq> t)) \<longrightarrow>
        (home_team_id (?gs ! i) = t \<longrightarrow> home_team_pregame_elo (out ! i) = Some ELO_INITIAL) \<and>
        (away_team_id (?gs ! i) = t \<longrightarrow> away_team_pregame_elo (out ! i) = Some ELO_INITIAL)"
  proof (intro allI impI)
    fix i t
    assume H: "i < length out \<and>
        (\<forall>j < i. home_score (?gs ! j) = None \<or> away_score (?gs ! j) = None \<or>
                  (home_team_id (?gs ! j) \<noteq> t \<and> away_team_id (?gs ! j) \<noteq> t))"
    from H have i': "i < length ?gs" using len by simp
    from H have before: "\<And>j. j < i \<Longrightarrow> home_score (?gs ! j) = None \<or> away_score (?gs ! j) = None \<or>
                  (home_team_id (?gs ! j) \<noteq> t \<and> away_team_id (?gs ! j) \<noteq> t)"
      by simp
    from calculate_elo_loop_nth [OF run i'] obtain elo_i where
      pre: "calculate_elo_loop ?e0 (take i ?gs) = Inr (elo_i, take i out)" and
      stamp: "out ! i = (?gs ! i)\<lparr>home_team_pregame_elo := elo_i (home_team_id (?gs ! i)),
                                   away_team_pregame_elo := elo_i (away_team_id (?gs ! i))\<rparr>"
      by (elim exE conjE)
    have "\<forall>g \<in> set (take i ?gs). home_score g = None \<or> away_score g = None \<or>
           (home_team_id g \<noteq> t \<and> away_team_id g \<noteq> t)"
    proof
      fix g assume "g \<in> set (take i ?gs)"
      then obtain j where "j < length (take i ?gs)" "take i ?gs ! j = g"
        by (auto simp: in_set_conv_nth)
      then have "j < i" "?gs ! j = g" using i' by simp_all
      with before [of j] show "home_score g = None \<or> away_score g = None \<or>
           (home_team_id g \<noteq> t \<and> away_team_id g \<noteq> t)" by simp
    qed
    from calculate_elo_loop_other [OF pre this] have same: "elo_i t = ?e0 t" .
    have "?gs ! i \<in> set ?gs" using i' by (rule nth_mem)
    then have mem: "?gs ! i \<in> set (games db)" using set_gs by simp
    have hreg: "home_team_id (?gs ! i) \<in> team_id ` set (teams db)"
      and areg: "away_team_id (?gs ! i) \<in> team_id ` set (teams db)"
      using reg mem by simp_all
    have hs: "home_team_pregame_elo (out ! i) = elo_i (home_team_id (?gs ! i))"
      and as: "away_team_pregame_elo (out ! i) = elo_i (away_team_id (?gs ! i))"
      by (simp_all add: stamp)
    show "(home_team_id (?gs ! i) = t \<longrightarrow> home_team_pregame_elo (out ! i) = Some ELO_INITIAL) \<and>
        (away_team_id (?gs ! i) = t \<longrightarrow> away_team_pregame_elo (out ! i) = Some ELO_INITIAL)"
    proof (intro conjI impI)
      assume h: "home_team_id (?gs ! i) = t"
      with hreg have "?e0 t = Some ELO_INITIAL" by (simp add: init_elo_ratings_apply)
      with same h hs show "home_team_pregame_elo (out ! i) = Some ELO_INITIAL" by simp
    next
      assume a: "away_team_id (?gs ! i) = t"
      with areg have "?e0 t = Some ELO_INITIAL" by (simp add: init_elo_ratings_apply)
      with same a as show "away_team_pregame_elo (out ! i) = Some ELO_INITIAL" by simp
    qed
  qed
  show ?thesis
    by (intro exI [of _ elo] exI [of _ out] conjI pass calc len first)
qed

theorem rating_pass_registered_witness:
  "\<exists>out.
     calculate_elo_ratings
       \<lparr>teams = [new_team 1 ''LAL'', new_team 2 ''BOS''],
        games = [new_game ''2024-01-15-LAL-BOS'' 738900 1 2 (Some 100) (Some 90)],
        team_box_scores = [], odds_table = []\<rparr> =
     Inr \<lparr>teams = [new_team 1 ''LAL'', new_team 2 ''BOS''],
        games = out, team_box_scores = [], odds_table = []\<rparr> \<and>
     length out = 1 \<and>
     home_team_pregame_elo (out ! 0) = Some 1500 \<and>
     away_team_pregame_elo (out ! 0) = Some 1500"
proof -
  let ?db = "\<lparr>teams = [new_team 1 ''LAL'', new_team 2 ''BOS''],
        games = [new_game ''2024-01-15-LAL-BOS'' 738900 1 2 (Some 100) (Some 90)],
        team_box_scores = [], odds_table = []\<rparr>"
  have og: "ordered_games ?db = [new_game ''2024-01-15-LAL-BOS'' 738900 1 2 (Some 100) (Some 90)]"
    by (simp add: ordered_games_def)
  have reg: "\<forall>game \<in> set (games ?db).
      home_team_id game \<in> team_id ` set (teams ?db) \<and>
      away_team_id game \<in> team_id ` set (teams ?db)"
    by (simp add: new_game_def new_team_def)
  from rating_pass_registered [OF reg] obtain elo out where
    calc: "calculate_elo_ratings ?db = Inr (?db\<lparr>games := out\<rparr>)" and
    len: "length out = length (ordered_games ?db)" and
    first: "\<forall>i t. i < length out \<and>
        (\<forall>j < i. home_score (ordered_games ?db ! j) = None \<or>
                  away_score (ordered_games ?db ! j) = None \<or>
                  (home_team_id (ordered_games ?db ! j) \<noteq> t \<and>
                   away_team_id (ordered_games ?db ! j) \<noteq> t)) \<longrightarrow>
        (home_team_id (ordered_games ?db ! i) = t \<longrightarrow>
           home_team_pregame_elo (out ! i) = Some ELO_INITIAL) \<and>
        (away_team_id (ordered_games ?db ! i) = t \<longrightarrow>
           away_team_pregame_elo (out ! i) = Some ELO_INITIAL)"
    by blast
  have len1: "length out = 1" using len og by simp
  from first [rule_format, of 0 1] len1 og
  have h: "home_team_pregame_elo (out ! 0) = Some 1500"
    by (simp add: new_game_def ELO_INITIAL_def)
  from first [rule_format, of 0 2] len1 og
  have a: "away_team_pregame_elo (out ! 0) = Some 1500"
    by (simp add: new_game_def ELO_INITIAL_def)
  from calc len1 h a show ?thesis
    by (intro exI [of _ out]) simp
qed

subsection \<open>Form window\<close>





lemma concat_map_filter_empty:
  assumes "\<And>x. x \<in> set xs \<Longrightarrow> \<not> P x \<Longrightarrow> f x = []"
  shows "concat (map f (filter P xs)) = concat (map f xs)"
  using assms by (induction xs) auto

lemma box_rows_later_game:
  assumes "d \<le> date g"
  shows "[(bs, game). game \<leftarrow> gs1 @ g # gs2, game_id game = bs_game_id bs,
            bs_team_id bs = team \<and> date game < d \<and> home_score game \<noteq> None] =
         [(bs, game). game \<leftarrow> gs1 @ gs2, game_id game = bs_game_id bs,
            bs_team_id bs = team \<and> date game < d \<and> home_score game \<noteq> None]"
  using assms by simp

lemma box_rows_no_game:
  assumes "\<forall>game \<in> set gs. game_id game \<noteq> bs_game_id bs"
  shows "[(bs, game). game \<leftarrow> gs, game_id game = bs_game_id bs,
            bs_team_id bs = team \<and> date game < d \<and> home_score game \<noteq> None] = []"
  using assms by (induction gs) simp_all

lemma box_scores_before_insert:
  assumes late: "d \<le> date g" and fresh: "\<forall>game \<in> set (gs1 @ gs2). game_id game \<noteq> game_id g"
  shows "[(bs, game). bs \<leftarrow> bss, game \<leftarrow> gs1 @ g # gs2, game_id game = bs_game_id bs,
            bs_team_id bs = team \<and> date game < d \<and> home_score game \<noteq> None] =
         [(bs, game). bs \<leftarrow> filter (\<lambda>bs. bs_game_id bs \<noteq> game_id g) bss,
            game \<leftarrow> gs1 @ gs2, game_id game = bs_game_id bs,
            bs_team_id bs = team \<and> date game < d \<and> home_score game \<noteq> None]"
proof -
  let ?rows = "\<lambda>gs bs. [(bs, game). game \<leftarrow> gs, game_id game = bs_game_id bs,
            bs_team_id bs = team \<and> date game < d \<and> home_score game \<noteq> None]"
  have same: "?rows (gs1 @ g # gs2) = ?rows (gs1 @ gs2)"
    using box_rows_later_game [OF late] by (intro ext)
  have none: "?rows (gs1 @ gs2) bs = []" if "\<not> bs_game_id bs \<noteq> game_id g" for bs
  proof (rule box_rows_no_game)
    from that have "bs_game_id bs = game_id g" by simp
    with fresh show "\<forall>game \<in> set (gs1 @ gs2). game_id game \<noteq> bs_game_id bs" by simp
  qed
  have "concat (map (?rows (gs1 @ g # gs2)) bss) = concat (map (?rows (gs1 @ gs2)) bss)"
    by (simp only: same)
  also have "\<dots> = concat (map (?rows (gs1 @ gs2)) (filter (\<lambda>bs. bs_game_id bs \<noteq> game_id g) bss))"
    by (rule concat_map_filter_empty [symmetric]) (rule none)
  finally show ?thesis .
qed

lemma played_rows_other_id:
  assumes "game_id game \<noteq> k"
  shows "[game. bs \<leftarrow> bss, bs_game_id bs = game_id game,
            bs_team_id bs = team \<and> date game < d \<and> home_score game \<noteq> None] =
         [game. bs \<leftarrow> filter (\<lambda>bs. bs_game_id bs \<noteq> k) bss, bs_game_id bs = game_id game,
            bs_team_id bs = team \<and> date game < d \<and> home_score game \<noteq> None]"
proof -
  let ?f = "\<lambda>bs. if bs_game_id bs = game_id game
              then if bs_team_id bs = team \<and> date game < d \<and> home_score game \<noteq> None
                   then [game] else []
              else []"
  have "concat (map ?f (filter (\<lambda>bs. bs_game_id bs \<noteq> k) bss)) = concat (map ?f bss)"
  proof (rule concat_map_filter_empty)
    fix bs assume "\<not> bs_game_id bs \<noteq> k"
    then have "bs_game_id bs \<noteq> game_id game" using assms by simp
    then show "?f bs = []" by simp
  qed
  then show ?thesis by simp
qed

lemma concat_map_Nil: "concat (map (\<lambda>x. []) xs) = []"
  by (induction xs) simp_all

lemma played_rows_late:
  assumes "d \<le> date g"
  shows "[g. bs \<leftarrow> bss, bs_game_id bs = game_id g,
            bs_team_id bs = team \<and> date g < d \<and> home_score g \<noteq> None] = []"
proof -
  have "\<not> date g < d" using assms by simp
  then have eq: "(\<lambda>bs. if bs_game_id bs = game_id g
                then if bs_team_id bs = team \<and> date g < d \<and> home_score g \<noteq> None
                     then [g] else []
                else []) = (\<lambda>bs. [])"
    by (intro ext) simp
  show ?thesis unfolding eq by (rule concat_map_Nil)
qed

lemma played_rows_filter:
  assumes "\<forall>game \<in> set gs. game_id game \<noteq> k"
  shows "[game. game \<leftarrow> gs, bs \<leftarrow> bss, bs_game_id bs = game_id game,
            bs_team_id bs = team \<and> date game < d \<and> home_score game \<noteq> None] =
         [game. game \<leftarrow> gs, bs \<leftarrow> filter (\<lambda>bs. bs_game_id bs \<noteq> k) bss,
            bs_game_id bs = game_id game,
            bs_team_id bs = team \<and> date game < d \<and> home_score game \<noteq> None]"
proof -
  let ?inner = "\<lambda>bss game. [game. bs \<leftarrow> bss, bs_game_id bs = game_id game,
            bs_team_id bs = team \<and> date game < d \<and> home_score game \<noteq> None]"
  have "map (?inner bss) gs = map (?inner (filter (\<lambda>bs. bs_game_id bs \<noteq> k) bss)) gs"
  proof (rule map_cong [OF refl])
    fix game assume "game \<in> set gs"
    with assms have "game_id game \<noteq> k" by simp
    then show "?inner bss game = ?inner (filter (\<lambda>bs. bs_game_id bs \<noteq> k) bss) game"
      by (rule played_rows_other_id)
  qed
  then have "concat (map (?inner bss) gs) =
             concat (map (?inner (filter (\<lambda>bs. bs_game_id bs \<noteq> k) bss)) gs)"
    by (rule arg_cong)
  then show ?thesis .
qed

lemma games_played_before_insert:
  assumes late: "d \<le> date g" and fresh: "\<forall>game \<in> set (gs1 @ gs2). game_id game \<noteq> game_id g"
  shows "[game. game \<leftarrow> gs1 @ g # gs2, bs \<leftarrow> bss, bs_game_id bs = game_id game,
            bs_team_id bs = team \<and> date game < d \<and> home_score game \<noteq> None] =
         [game. game \<leftarrow> gs1 @ gs2, bs \<leftarrow> filter (\<lambda>bs. bs_game_id bs \<noteq> game_id g) bss,
            bs_game_id bs = game_id game,
            bs_team_id bs = team \<and> date game < d \<and> home_score game \<noteq> None]"
proof -
  let ?inner = "\<lambda>bss game. [game. bs \<leftarrow> bss, bs_game_id bs = game_id game,
            bs_team_id bs = team \<and> date game < d \<and> home_score game \<noteq> None]"
  have g: "?inner bss g = []" using late by (rule played_rows_late)
  have "concat (map (?inner bss) (gs1 @ g # gs2)) = concat (map (?inner bss) (gs1 @ gs2))"
    by (simp only: map_append list.map concat_append concat.simps g append_Nil)
  also have "\<dots> = concat (map (?inner (filter (\<lambda>bs. bs_game_id bs \<noteq> game_id g) bss)) (gs1 @ gs2))"
    using played_rows_filter [OF fresh] .
  finally show ?thesis .
qed

text \<open>
  Claim C2. Inserting a game dated on or after the cutoff \<open>d\<close> anywhere into the game
  table, together with any box scores of that game anywhere into the box-score table,
  changes none of \<open>get_rolling_averages\<close>, \<open>get_h2h_win_pct\<close> and \<open>get_days_rest\<close> at
  cutoff \<open>d\<close>: the three queries keep the games with \<open>date < d\<close> only. (The new game
  has a fresh id, \<open>game_id\<close> being the primary key of the table.)
\<close>

theorem no_leakage:
  assumes log: "games db = gs1 @ gs2"
    and late: "d \<le> date g"
    and fresh: "\<forall>game \<in> set (games db). game_id game \<noteq> game_id g"
    and boxes: "filter (\<lambda>bs. bs_game_id bs \<noteq> game_id g) bss = team_box_scores db"
  shows "get_rolling_averages (db\<lparr>games := gs1 @ g # gs2, team_box_scores := bss\<rparr>) team d window =
           get_rolling_averages db team d window \<and>
         get_h2h_win_pct (db\<lparr>games := gs1 @ g # gs2, team_box_scores := bss\<rparr>) team opponent d =
           get_h2h_win_pct db team opponent d \<and>
         get_days_rest (db\<lparr>games := gs1 @ g # gs2, team_box_scores := bss\<rparr>) team d =
           get_days_rest db team d"
proof -
  let ?db' = "db\<lparr>games := gs1 @ g # gs2, team_box_scores := bss\<rparr>"
  have g': "games ?db' = gs1 @ g # gs2" and b': "team_box_scores ?db' = bss"
    by simp_all
  have fresh': "\<forall>game \<in> set (gs1 @ gs2). game_id game \<noteq> game_id g"
    using fresh unfolding log .
  have rows: "box_scores_before ?db' team d = box_scores_before db team d"
    unfolding box_scores_before_def g' b' log boxes [symmetric]
    using late fresh' by (rule box_scores_before_insert)
  have played: "games_played_before ?db' team d = games_played_before db team d"
    unfolding games_played_before_def g' b' log boxes [symmetric]
    using late fresh' by (rule games_played_before_insert)
  have "\<not> date g < d" using late by simp
  then have h2h: "h2h_games ?db' team opponent d = h2h_games db team opponent d"
    unfolding h2h_games_def g' log by simp
  have 1: "get_rolling_averages ?db' team d window = get_rolling_averages db team d window"
    unfolding get_rolling_averages_def rows ..
  have 2: "get_h2h_win_pct ?db' team opponent d = get_h2h_win_pct db team opponent d"
    unfolding get_h2h_win_pct_def h2h ..
  have 3: "get_days_rest ?db' team d = get_days_rest db team d"
    unfolding get_days_rest_def played ..
  from 1 2 3 show ?thesis by (intro conjI)
qed

theorem no_leakage_witness:
  "get_rolling_averages
     (sample_db\<lparr>games := games sample_db @ [new_game ''2024-01-20-BOS-LAL'' 738905 2 1 (Some 80) (Some 120)],
                team_box_scores := new_box_score ''2024-01-20-BOS-LAL'' 2 True 80 (- 40) #
                   team_box_scores sample_db @ [new_box_score ''2024-01-20-BOS-LAL'' 1 False 120 40]\<rparr>)
     1 738903 10 =
     \<lparr>avg_pts_scored = 100, avg_pts_allowed = 90, avg_fg_pct = 45 / 100, avg_tov = 12,
      avg_plus_minus = 10, avg_rebounds = 40, avg_assists = 25\<rparr> \<and>
   get_h2h_win_pct
     (sample_db\<lparr>games := games sample_db @ [new_game ''2024-01-20-BOS-LAL'' 738905 2 1 (Some 80) (Some 120)],
                team_box_scores := new_box_score ''2024-01-20-BOS-LAL'' 2 True 80 (- 40) #
                   team_box_scores sample_db @ [new_box_score ''2024-01-20-BOS-LAL'' 1 False 120 40]\<rparr>)
     2 1 738903 = 0 \<and>
   get_days_rest
     (sample_db\<lparr>games := games sample_db @ [new_game ''2024-01-20-BOS-LAL'' 738905 2 1 (Some 80) (Some 120)],
                team_box_scores := new_box_score ''2024-01-20-BOS-LAL'' 2 True 80 (- 40) #
                   team_box_scores sample_db @ [new_box_score ''2024-01-20-BOS-LAL'' 1 False 120 40]\<rparr>)
     1 738903 = 3"
proof -
  let ?g = "new_game ''2024-01-20-BOS-LAL'' 738905 2 1 (Some 80) (Some 120)"
  let ?bss = "new_box_score ''2024-01-20-BOS-LAL'' 2 True 80 (- 40) #
                team_box_scores sample_db @ [new_box_score ''2024-01-20-BOS-LAL'' 1 False 120 40]"
  have log: "games sample_db = games sample_db @ []" by simp
  have late: "738903 \<le> date ?g" by (simp add: new_game_def)
  have fresh: "\<forall>game \<in> set (games sample_db). game_id game \<noteq> game_id ?g"
    by (simp add: sample_db_def new_game_def)
  have boxes: "filter (\<lambda>bs. bs_game_id bs \<noteq> game_id ?g) ?bss = team_box_scores sample_db"
    by (simp add: sample_db_def new_game_def new_box_score_def)
  have 1: "get_rolling_averages sample_db 1 738903 10 =
     \<lparr>avg_pts_scored = 100, avg_pts_allowed = 90, avg_fg_pct = 45 / 100, avg_tov = 12,
      avg_plus_minus = 10, avg_rebounds = 40, avg_assists = 25\<rparr>"
    by (simp add: get_rolling_averages_def box_scores_before_def sample_db_def new_game_def
        new_box_score_def)
  have 2: "get_h2h_win_pct sample_db 2 1 738903 = 0"
    by (simp add: get_h2h_win_pct_def h2h_games_def sample_db_def new_game_def)
  have 3: "get_days_rest sample_db 1 738903 = 3"
    by (simp add: get_days_rest_def games_played_before_def sample_db_def new_game_def
        new_box_score_def)
  from no_leakage [OF log late fresh boxes, of 1 10 2]
  have "get_rolling_averages (sample_db\<lparr>games := games sample_db @ ?g # [], team_box_scores := ?bss\<rparr>) 1 738903 10 =
           get_rolling_averages sample_db 1 738903 10"
    by (rule conjunct1)
  moreover from no_leakage [OF log late fresh boxes, of 2 10 1]
  have "get_h2h_win_pct (sample_db\<lparr>games := games sample_db @ ?g # [], team_box_scores := ?bss\<rparr>) 2 1 738903 =
           get_h2h_win_pct sample_db 2 1 738903"
    by (rule conjunct1 [OF conjunct2])
  moreover from no_leakage [OF log late fresh boxes, of 1 10 2]
  have "get_days_rest (sample_db\<lparr>games := games sample_db @ ?g # [], team_box_scores := ?bss\<rparr>) 1 738903 =
           get_days_rest sample_db 1 738903"
    by (rule conjunct2 [OF conjunct2])
  ultimately show ?thesis
    unfolding 1 2 3 by (intro conjI)
qed

subsection \<open>Feature builder\<close>

lemma game_feature_rows_incomplete:
  "home_score game = None \<or> away_score game = None \<Longrightarrow> game_feature_rows db game = []"
  by (auto simp: game_feature_rows_def split: option.splits)

lemma game_feature_rows_pair:
  assumes "home_score game = Some hs" "away_score game = Some as"
  shows "\<exists>h a. game_feature_rows db game = [h, a] \<and>
           row_game_id h = game_id game \<and> row_game_id a = game_id game \<and>
           row_is_home h = 1 \<and> row_is_home a = 0 \<and>
           row_team_id h = home_team_id game \<and> row_team_id a = away_team_id game \<and>
           opponent_id h = away_team_id game \<and> opponent_id a = home_team_id game \<and>
           elo_diff a = - elo_diff h \<and>
           rest_advantage a = - rest_advantage h \<and>
           target_win_margin a = - target_win_margin h \<and>
           target_did_win h + target_did_win a = 1 \<and>
           target_did_win h = (if hs > as then 1 else 0)"
  using assms by (simp add: game_feature_rows_def Let_def)

lemma concat_pairs_nth:
  assumes "\<forall>x \<in> set xs. length (f x) = 2" and "i < length xs"
  shows "concat (map f xs) ! (2 * i) = f (xs ! i) ! 0 \<and>
         concat (map f xs) ! (2 * i + 1) = f (xs ! i) ! 1"
  using assms
proof (induction xs arbitrary: i)
  case Nil
  then show ?case by simp
next
  case (Cons x xs)
  have len: "length (f x) = 2" using Cons.prems(1) by simp
  show ?case
  proof (cases i)
    case 0
    then show ?thesis using len by (simp add: nth_append)
  next
    case (Suc j)
    have j: "j < length xs" using Cons.prems(2) Suc by simp
    have "\<forall>x \<in> set xs. length (f x) = 2" using Cons.prems(1) by simp
    from Cons.IH [OF this j] show ?thesis using len Suc by (simp add: nth_append)
  qed
qed

lemma concat_pairs_length:
  assumes "\<forall>x \<in> set xs. length (f x) = 2"
  shows "length (concat (map f xs)) = 2 * length xs"
  using assms by (induction xs) simp_all

lemma feature_games_completed:
  "filter (\<lambda>game. away_score game \<noteq> None) (feature_games db season_filter) =
   sort_key date (filter (\<lambda>game. home_score game \<noteq> None \<and> away_score game \<noteq> None \<and>
       (case season_filter of None \<Rightarrow> True | Some s \<Rightarrow> s = 0 \<or> season game = s)) (games db))"
proof -
  have "filter (\<lambda>game. away_score game \<noteq> None) (feature_games db season_filter) =
        sort_key date (filter (\<lambda>game. away_score game \<noteq> None)
          (case season_filter of
             None \<Rightarrow> filter (\<lambda>game. home_score game \<noteq> None) (games db)
           | Some s \<Rightarrow> if s \<noteq> 0
               then filter (\<lambda>game. season game = s) (filter (\<lambda>game. home_score game \<noteq> None) (games db))
               else filter (\<lambda>game. home_score game \<noteq> None) (games db)))"
    by (simp only: feature_games_def Let_def filter_sort)
  also have "(filter (\<lambda>game. away_score game \<noteq> None)
          (case season_filter of
             None \<Rightarrow> filter (\<lambda>game. home_score game \<noteq> None) (games db)
           | Some s \<Rightarrow> if s \<noteq> 0
               then filter (\<lambda>game. season game = s) (filter (\<lambda>game. home_score game \<noteq> None) (games db))
               else filter (\<lambda>game. home_score game \<noteq> None) (games db))) =
        filter (\<lambda>game. home_score game \<noteq> None \<and> away_score game \<noteq> None \<and>
       (case season_filter of None \<Rightarrow> True | Some s \<Rightarrow> s = 0 \<or> season game = s)) (games db)"
    by (cases season_filter) (auto intro: filter_cong)
  finally show ?thesis .
qed

lemma create_feature_set_completed:
  "create_feature_set db season_filter =
   concat (map (game_feature_rows db)
     (filter (\<lambda>game. away_score game \<noteq> None) (feature_games db season_filter)))"
  unfolding create_feature_set_def
proof (rule concat_map_filter_empty [symmetric])
  fix x :: Game assume "\<not> away_score x \<noteq> None"
  then show "game_feature_rows db x = []"
    by (simp add: game_feature_rows_incomplete)
qed

text \<open>
  Claim C9. \<open>create_feature_set\<close> emits exactly two rows for every completed game of
  the selection (both scores there), the home row then the away row, in date order; the
  away row's \<open>elo_diff\<close> and \<open>rest_advantage\<close> are the negations of the home row's,
  and the two \<open>target_did_win\<close> values sum to 1.
\<close>

theorem feature_symmetry:
  "let completed = sort_key date (filter (\<lambda>game. home_score game \<noteq> None \<and> away_score game \<noteq> None \<and>
           (case season_filter of None \<Rightarrow> True | Some s \<Rightarrow> s = 0 \<or> season game = s)) (games db));
       rows = create_feature_set db season_filter
   in length rows = 2 * length completed \<and>
      (\<forall>i < length completed.
         row_game_id (rows ! (2 * i)) = game_id (completed ! i) \<and>
         row_game_id (rows ! (2 * i + 1)) = game_id (completed ! i) \<and>
         row_is_home (rows ! (2 * i)) = 1 \<and>
         row_is_home (rows ! (2 * i + 1)) = 0 \<and>
         row_team_id (rows ! (2 * i)) = home_team_id (completed ! i) \<and>
         row_team_id (rows ! (2 * i + 1)) = away_team_id (completed ! i) \<and>
         elo_diff (rows ! (2 * i + 1)) = - elo_diff (rows ! (2 * i)) \<and>
         rest_advantage (rows ! (2 * i + 1)) = - rest_advantage (rows ! (2 * i)) \<and>
         target_did_win (rows ! (2 * i)) + target_did_win (rows ! (2 * i + 1)) = 1)"
proof -
  define completed where "completed = sort_key date (filter (\<lambda>game. home_score game \<noteq> None \<and>
           away_score game \<noteq> None \<and>
           (case season_filter of None \<Rightarrow> True | Some s \<Rightarrow> s = 0 \<or> season game = s)) (games db))"
  define rows where "rows = create_feature_set db season_filter"
  have rows_eq: "rows = concat (map (game_feature_rows db) completed)"
    unfolding rows_def completed_def
    by (simp only: create_feature_set_completed feature_games_completed)
  have both: "\<exists>hs as. home_score g = Some hs \<and> away_score g = Some as" if "g \<in> set completed" for g
    using that unfolding completed_def by auto
  have two: "\<forall>g \<in> set completed. length (game_feature_rows db g) = 2"
  proof
    fix g assume "g \<in> set completed"
    from both [OF this] obtain hs as where "home_score g = Some hs" "away_score g = Some as"
      by blast
    from game_feature_rows_pair [OF this, of db] show "length (game_feature_rows db g) = 2"
      by auto
  qed
  have len: "length rows = 2 * length completed"
    unfolding rows_eq using two by (rule concat_pairs_length)
  have sym: "row_game_id (rows ! (2 * i)) = game_id (completed ! i) \<and>
         row_game_id (rows ! (2 * i + 1)) = game_id (completed ! i) \<and>
         row_is_home (rows ! (2 * i)) = 1 \<and>
         row_is_home (rows ! (2 * i + 1)) = 0 \<and>
         row_team_id (rows ! (2 * i)) = home_team_id (completed ! i) \<and>
         row_team_id (rows ! (2 * i + 1)) = away_team_id (completed ! i) \<and>
         elo_diff (rows ! (2 * i + 1)) = - elo_diff (rows ! (2 * i)) \<and>
         rest_advantage (rows ! (2 * i + 1)) = - rest_advantage (rows ! (2 * i)) \<and>
         target_did_win (rows ! (2 * i)) + target_did_win (rows ! (2 * i + 1)) = 1"
    if i: "i < length completed" for i
  proof -
    have mem: "completed ! i \<in> set completed" using i by (rule nth_mem)
    from both [OF mem] obtain hs as where
      sc: "home_score (completed ! i) = Some hs" "away_score (completed ! i) = Some as"
      by blast
    from game_feature_rows_pair [OF sc, of db] obtain h a where
      pair: "game_feature_rows db (completed ! i) = [h, a]" and
      props: "row_game_id h = game_id (completed ! i)" "row_game_id a = game_id (completed ! i)"
        "row_is_home h = 1" "row_is_home a = 0"
        "row_team_id h = home_team_id (completed ! i)" "row_team_id a = away_team_id (completed ! i)"
        "elo_diff a = - elo_diff h" "rest_advantage a = - rest_advantage h"
        "target_did_win h + target_did_win a = 1"
      by blast
    from concat_pairs_nth [OF two i] pair
    have "rows ! (2 * i) = h" "rows ! (2 * i + 1) = a"
      unfolding rows_eq by simp_all
    with props show ?thesis by simp
  qed
  from len sym show ?thesis
    unfolding Let_def completed_def [symmetric] rows_def [symmetric] by blast
qed

lemma sample_completed:
  "sort_key date (filter (\<lambda>game. home_score game \<noteq> None \<and> away_score game \<noteq> None \<and>
           (case None :: int option of None \<Rightarrow> True | Some s \<Rightarrow> s = 0 \<or> season game = s)) (games sample_season_db)) =
   [(new_game ''2024-01-15-LAL-BOS'' 738900 1 2 (Some 100) (Some 90))
                 \<lparr>home_team_pregame_elo := Some 1500, away_team_pregame_elo := Some 1500\<rparr>,
               (new_game ''2024-01-17-BOS-LAL'' 738902 2 1 (Some 95) (Some 99))
                 \<lparr>home_team_pregame_elo := Some 1490, away_team_pregame_elo := Some 1510\<rparr>]"
  by (simp add: sample_season_db_def new_game_def)

theorem feature_symmetry_witness:
  "length (create_feature_set sample_season_db None) = 4 \<and>
   row_team_id (create_feature_set sample_season_db None ! 2) = 2 \<and>
   row_team_id (create_feature_set sample_season_db None ! 3) = 1 \<and>
   elo_diff (create_feature_set sample_season_db None ! 3) =
     - elo_diff (create_feature_set sample_season_db None ! 2) \<and>
   rest_advantage (create_feature_set sample_season_db None ! 3) =
     - rest_advantage (create_feature_set sample_season_db None ! 2) \<and>
   target_did_win (create_feature_set sample_season_db None ! 2) +
     target_did_win (create_feature_set sample_season_db None ! 3) = 1"
proof -
  let ?rows = "create_feature_set sample_season_db None"
  let ?completed = "[(new_game ''2024-01-15-LAL-BOS'' 738900 1 2 (Some 100) (Some 90))
                 \<lparr>home_team_pregame_elo := Some 1500, away_team_pregame_elo := Some 1500\<rparr>,
               (new_game ''2024-01-17-BOS-LAL'' 738902 2 1 (Some 95) (Some 99))
                 \<lparr>home_team_pregame_elo := Some 1490, away_team_pregame_elo := Some 1510\<rparr>]"
  note inst = feature_symmetry [of None sample_season_db, unfolded Let_def sample_completed]
  from inst have len: "length ?rows = 2 * length ?completed"
    by (rule conjunct1)
  from inst have "\<forall>i < length ?completed.
         row_game_id (?rows ! (2 * i)) = game_id (?completed ! i) \<and>
         row_game_id (?rows ! (2 * i + 1)) = game_id (?completed ! i) \<and>
         row_is_home (?rows ! (2 * i)) = 1 \<and>
         row_is_home (?rows ! (2 * i + 1)) = 0 \<and>
         row_team_id (?rows ! (2 * i)) = home_team_id (?completed ! i) \<and>
         row_team_id (?rows ! (2 * i + 1)) = away_team_id (?completed ! i) \<and>
         elo_diff (?rows ! (2 * i + 1)) = - elo_diff (?rows ! (2 * i)) \<and>
         rest_advantage (?rows ! (2 * i + 1)) = - rest_advantage (?rows ! (2 * i)) \<and>
         target_did_win (?rows ! (2 * i)) + target_did_win (?rows ! (2 * i + 1)) = 1"
    by (rule conjunct2)
  from this [rule_format, of 1] len show ?thesis
    by (simp add: new_game_def)
qed

lemma create_feature_set_sample:
  "map (\<lambda>r. (row_team_id r, row_is_home r, target_did_win r, elo_diff r, rest_advantage r,
              days_since_last_game r, avg_pts_scored_l10 r, h2h_win_pct r))
     (create_feature_set sample_season_db None) =
   [(1, 1, 1, 0, 0, 3, 0, 1 / 2), (2, 0, 0, 0, 0, 3, 0, 1 / 2),
    (2, 1, 0, - 20, 0, 2, 90, 0), (1, 0, 1, 20, 0, 2, 100, 1)]"
  by (simp add: create_feature_set_def feature_games_def game_feature_rows_def
      sample_season_db_def new_game_def new_box_score_def elo_or_initial_def Let_def
      get_rolling_averages_def box_scores_before_def get_days_rest_def games_played_before_def
      get_h2h_win_pct_def h2h_games_def ROLLING_WINDOW_def)

subsection \<open>Inference\<close>

lemma sort_key_head:
  assumes "sort_key f xs = x # rest"
  shows "x \<in> set xs \<and> (\<forall>y \<in> set xs. f x \<le> f y)"
proof -
  have "set (sort_key f xs) = set xs" by simp
  with assms have s: "set xs = insert x (set rest)" by simp
  have "sorted (map f (sort_key f xs))" by (rule sorted_sort_key)
  with assms have "\<forall>y \<in> set rest. f x \<le> f y" by simp
  with s show ?thesis by auto
qed

lemma sample_rating_pass:
  "rating_pass sample_db =
     Inr ([1 \<mapsto> 1500 + 20 * (1 - 1 / (1 + 10 powr (- 1 / 4))),
           2 \<mapsto> 1500 + 20 * (0 - (1 - 1 / (1 + 10 powr (- 1 / 4))))],
          games sample_db_rated)"
  by (simp add: rating_pass_def ordered_games_def init_elo_ratings_def calculate_elo_step_def
      sample_db_def sample_db_rated_def new_game_def new_team_def
      ELO_INITIAL_def ELO_K_FACTOR_def ELO_HOME_ADVANTAGE_def)

lemma ten_powr_neg_quarter: "(10::real) powr (- 1 / 4) < 1"
proof -
  have "(10::real) powr (- 1 / 4) < 10 powr 0"
    by (rule powr_less_mono) simp_all
  then show ?thesis by simp
qed

lemma half_less_inverse:
  fixes x :: real
  assumes "0 < x" "x < 1"
  shows "1 / 2 < 1 / (1 + x)"
  using assms by (simp add: field_simps)

text \<open>
  Claim C4, as stated, fails. After the rating pass over one game that team 1 won at
  home, the rating of team 1 in the rating dictionary is
  \<open>1500 + 20 * (1 - 1 / (1 + 10 powr (- 1 / 4)))\<close>, which is below 1515, while
  \<open>get_current_elo\<close> returns the stamped pre-game rating plus 15.
\<close>

theorem current_elo_not_post_update:
  "calculate_elo_ratings sample_db = Inr sample_db_rated \<and>
   rating_pass sample_db =
     Inr ([1 \<mapsto> 1500 + 20 * (1 - 1 / (1 + 10 powr (- 1 / 4))),
           2 \<mapsto> 1500 + 20 * (0 - (1 - 1 / (1 + 10 powr (- 1 / 4))))],
          games sample_db_rated) \<and>
   get_current_elo sample_db_rated 1 = Inr (Some 1515) \<and>
   (1500 + 20 * (1 - 1 / (1 + 10 powr (- 1 / 4))) :: real) < 1515"
proof (intro conjI)
  show pass: "rating_pass sample_db =
     Inr ([1 \<mapsto> 1500 + 20 * (1 - 1 / (1 + 10 powr (- 1 / 4))),
           2 \<mapsto> 1500 + 20 * (0 - (1 - 1 / (1 + 10 powr (- 1 / 4))))],
          games sample_db_rated)"
    by (rule sample_rating_pass)
  show "calculate_elo_ratings sample_db = Inr sample_db_rated"
    by (simp add: calculate_elo_ratings_def pass) (simp add: sample_db_rated_def)
  show "get_current_elo sample_db_rated 1 = Inr (Some 1515)"
    by (simp add: get_current_elo_def sample_db_rated_def sample_db_def new_game_def)
  have pos: "(0::real) < 10 powr (- 1 / 4)" by simp
  have "1 / (1 + 10 powr (- 1 / 4)) > (1 / 2 :: real)"
    using half_less_inverse [OF pos ten_powr_neg_quarter] by simp
  then show "(1500 + 20 * (1 - 1 / (1 + 10 powr (- 1 / 4))) :: real) < 1515"
    by simp
qed

text \<open>
  Claim C4, amended. \<open>get_current_elo\<close> returns \<open>ELO_INITIAL\<close> for a team with no
  stamped game; otherwise it takes a stamped game of the team with the latest date and
  returns the team's pre-game rating stamped on it, plus 15 when the team won that game,
  minus 15 when the game has a result that the team did not win (a loss or a tie), and
  unchanged when the game has no result. (Stamps are written in pairs, as the rating
  pass does.)
\<close>

theorem current_elo_heuristic:
  assumes stamps: "\<forall>g \<in> set (games db).
      home_team_pregame_elo g \<noteq> None \<longrightarrow> away_team_pregame_elo g \<noteq> None"
  shows "if \<forall>g \<in> set (games db).
              \<not> ((home_team_id g = team \<or> away_team_id g = team) \<and>
                 home_team_pregame_elo g \<noteq> None)
         then get_current_elo db team = Inr (Some ELO_INITIAL)
         else \<exists>g \<in> set (games db). \<exists>pre.
            (home_team_id g = team \<or> away_team_id g = team) \<and>
            home_team_pregame_elo g \<noteq> None \<and>
            (\<forall>g' \<in> set (games db).
               (home_team_id g' = team \<or> away_team_id g' = team) \<and>
               home_team_pregame_elo g' \<noteq> None \<longrightarrow> date g' \<le> date g) \<and>
            (if home_team_id g = team then home_team_pregame_elo g
             else away_team_pregame_elo g) = Some pre \<and>
            get_current_elo db team = Inr (Some
              (case (home_score g, away_score g) of
                 (Some hs, Some as) \<Rightarrow>
                   if (home_team_id g = team \<and> hs > as) \<or> (away_team_id g = team \<and> as > hs)
                   then pre + 15 else pre - 15
               | _ \<Rightarrow> pre))"
proof -
  define P where "P = (\<lambda>g :: Game. (home_team_id g = team \<or> away_team_id g = team) \<and>
                 home_team_pregame_elo g \<noteq> None)"
  define cand where "cand = sort_key (\<lambda>game. - date game) (filter P (games db))"
  have def: "get_current_elo db team =
     (case cand of
        [] \<Rightarrow> Inr (Some ELO_INITIAL)
      | recent_game # _ \<Rightarrow>
          let elo = (if home_team_id recent_game = team
                     then home_team_pregame_elo recent_game
                     else away_team_pregame_elo recent_game)
          in (case (home_score recent_game, away_score recent_game) of
                (Some hs, Some as) \<Rightarrow>
                  (case elo of
                     None \<Rightarrow> Inl TypeError
                   | Some e \<Rightarrow>
                       if (home_team_id recent_game = team \<and> hs > as) \<or>
                          (away_team_id recent_game = team \<and> as > hs)
                       then Inr (Some (e + 15))
                       else Inr (Some (e - 15)))
              | _ \<Rightarrow> Inr elo))"
    unfolding get_current_elo_def cand_def P_def ..
  show ?thesis
  proof (cases "\<forall>g \<in> set (games db). \<not> P g")
    case True
    then have "filter P (games db) = []" by (simp add: filter_empty_conv)
    then have "cand = []" by (simp add: cand_def)
    then have res: "get_current_elo db team = Inr (Some ELO_INITIAL)" by (simp add: def)
    show ?thesis unfolding if_P [OF True [unfolded P_def]] by (rule res)
  next
    case False
    then have "filter P (games db) \<noteq> []" by (simp add: filter_empty_conv)
    moreover have "length cand = length (filter P (games db))" by (simp add: cand_def)
    ultimately have "cand \<noteq> []" by auto
    then obtain g rest where c: "cand = g # rest" by (cases cand) auto
    from sort_key_head [OF c [unfolded cand_def]]
    have mem: "g \<in> set (filter P (games db))"
      and latest: "\<forall>y \<in> set (filter P (games db)). - date g \<le> - date y"
      by simp_all
    from mem have g_in: "g \<in> set (games db)" and Pg: "P g" by simp_all
    from Pg have hs_stamp: "home_team_pregame_elo g \<noteq> None" by (simp add: P_def)
    with stamps g_in have as_stamp: "away_team_pregame_elo g \<noteq> None" by blast
    from hs_stamp as_stamp obtain pre where
      pre: "(if home_team_id g = team then home_team_pregame_elo g
             else away_team_pregame_elo g) = Some pre"
      by (cases "home_team_id g = team") auto
    have max: "\<forall>g' \<in> set (games db). P g' \<longrightarrow> date g' \<le> date g"
      using latest by simp
    have val: "get_current_elo db team = Inr (Some
              (case (home_score g, away_score g) of
                 (Some hs, Some as) \<Rightarrow>
                   if (home_team_id g = team \<and> hs > as) \<or> (away_team_id g = team \<and> as > hs)
                   then pre + 15 else pre - 15
               | _ \<Rightarrow> pre))"
      using pre by (simp add: def c Let_def split: option.splits)
    have res: "\<exists>g \<in> set (games db). \<exists>pre. P g \<and>
            (\<forall>g' \<in> set (games db). P g' \<longrightarrow> date g' \<le> date g) \<and>
            (if home_team_id g = team then home_team_pregame_elo g
             else away_team_pregame_elo g) = Some pre \<and>
            get_current_elo db team = Inr (Some
              (case (home_score g, away_score g) of
                 (Some hs, Some as) \<Rightarrow>
                   if (home_team_id g = team \<and> hs > as) \<or> (away_team_id g = team \<and> as > hs)
                   then pre + 15 else pre - 15
               | _ \<Rightarrow> pre))"
      using g_in Pg max pre val by blast
    show ?thesis
      unfolding if_not_P [OF False [unfolded P_def]] using res [unfolded P_def]
      by (simp only: conj_assoc)
  qed
qed

theorem current_elo_heuristic_witness:
  "get_current_elo sample_db_rated 1 = Inr (Some (1500 + 15)) \<and>
   get_current_elo sample_db_rated 2 = Inr (Some (1500 - 15)) \<and>
   get_current_elo sample_db_rated 3 = Inr (Some ELO_INITIAL)"
proof -
  have stamps: "\<forall>g \<in> set (games sample_db_rated).
      home_team_pregame_elo g \<noteq> None \<longrightarrow> away_team_pregame_elo g \<noteq> None"
    by (simp add: sample_db_rated_def new_game_def)
  have 1: "get_current_elo sample_db_rated 1 = Inr (Some (1500 + 15))"
    using current_elo_heuristic [OF stamps, of 1]
    by (simp add: sample_db_rated_def new_game_def)
  have 2: "get_current_elo sample_db_rated 2 = Inr (Some (1500 - 15))"
    using current_elo_heuristic [OF stamps, of 2]
    by (simp add: sample_db_rated_def new_game_def)
  have 3: "get_current_elo sample_db_rated 3 = Inr (Some ELO_INITIAL)"
    using current_elo_heuristic [OF stamps, of 3]
    by (simp add: sample_db_rated_def new_game_def)
  from 1 2 3 show ?thesis by (intro conjI)
qed

subsection \<open>Backtest simulator\<close>

lemma odds_lookup_fold:
  "fold (\<lambda>odds odds_dict.
             odds_dict(odds_game_id odds \<mapsto>
               (case odds_dict (odds_game_id odds) of None \<Rightarrow> [] | Some l \<Rightarrow> l) @ [odds]))
       qs m gid =
   (if filter (\<lambda>odds. odds_game_id odds = gid) qs = [] then m gid
    else Some ((case m gid of None \<Rightarrow> [] | Some l \<Rightarrow> l) @
               filter (\<lambda>odds. odds_game_id odds = gid) qs))"
proof (induction qs arbitrary: m)
  case Nil
  show ?case by simp
next
  case (Cons q qs)
  let ?F = "\<lambda>odds odds_dict.
             odds_dict(odds_game_id odds \<mapsto>
               (case odds_dict (odds_game_id odds) of None \<Rightarrow> [] | Some l \<Rightarrow> l) @ [odds])"
  let ?m' = "?F q m"
  have step: "fold ?F (q # qs) m gid = fold ?F qs ?m' gid" by (simp only: fold_simps)
  have IH: "fold ?F qs ?m' gid =
     (if filter (\<lambda>odds. odds_game_id odds = gid) qs = [] then ?m' gid
      else Some ((case ?m' gid of None \<Rightarrow> [] | Some l \<Rightarrow> l) @
               filter (\<lambda>odds. odds_game_id odds = gid) qs))"
    by (rule Cons.IH)
  show ?case
  proof (cases "odds_game_id q = gid")
    case True
    then have "?m' gid = Some ((case m gid of None \<Rightarrow> [] | Some l \<Rightarrow> l) @ [q])" by simp
    with True show ?thesis unfolding step IH by simp
  next
    case False
    then have "?m' gid = m gid" by simp
    with False show ?thesis unfolding step IH by simp
  qed
qed

lemma odds_lookup_filter:
  "odds_lookup qs gid =
     (case filter (\<lambda>odds. odds_game_id odds = gid) qs of [] \<Rightarrow> None | q # rest \<Rightarrow> Some (q # rest))"
  unfolding odds_lookup_def odds_lookup_fold by (simp split: list.splits)

lemma filter_test_games:
  assumes "gid \<in> ids"
  shows "filter (\<lambda>odds. odds_game_id odds = gid) (filter (\<lambda>odds. odds_game_id odds \<in> ids) tbl) =
         filter (\<lambda>odds. odds_game_id odds = gid) tbl"
  using assms by (induction tbl) simp_all

lemma spec_tally_Nil: "spec_tally p stake sim [] = sim"
  by (simp add: spec_tally_def)

lemma spec_tally_append:
  "spec_tally p stake (spec_tally p stake sim xs) ys = spec_tally p stake sim (xs @ ys)"
  by (simp add: spec_tally_def)

lemma spec_bets_Cons:
  "spec_bets p db thr (row # rows) = spec_bets p db thr [row] @ spec_bets p db thr rows"
  by (simp add: spec_bets_def List.map_filter_def)

lemma moneyline_to_payout_spec:
  "m \<noteq> 0 \<Longrightarrow> moneyline_to_payout m stake = Inr (spec_payout m stake)"
  by (simp add: moneyline_to_payout_def spec_payout_def)

lemma simulate_row_spec:
  assumes dict: "odds_dict (row_game_id row) =
      (case filter (\<lambda>odds. odds_game_id odds = row_game_id row) (odds_table db) of
         [] \<Rightarrow> None | q # rest \<Rightarrow> Some (q # rest))"
    and nz: "spec_quote db row \<noteq> Some 0"
  shows "simulate_row odds_dict p thr stake sim row =
         Inr (spec_tally p stake sim (spec_bets p db thr [row]))"
proof (cases "filter (\<lambda>odds. odds_game_id odds = row_game_id row) (odds_table db)")
  case Nil
  then have "odds_dict (row_game_id row) = None" using dict by simp
  moreover have "spec_quote db row = None" using Nil by (simp add: spec_quote_def)
  ultimately show ?thesis
    by (simp add: simulate_row_def spec_bets_def List.map_filter_def spec_tally_Nil)
next
  case (Cons q rest)
  then have d: "odds_dict (row_game_id row) = Some (q # rest)" using dict by simp
  let ?ml = "if row_is_home row \<noteq> 0 then home_team_moneyline q else away_team_moneyline q"
  have sq: "spec_quote db row = ?ml" using Cons by (simp add: spec_quote_def)
  show ?thesis
  proof (cases ?ml)
    case None
    then show ?thesis
      using d sq by (simp add: simulate_row_def spec_bets_def List.map_filter_def spec_tally_Nil)
  next
    case (Some m)
    then have m0: "m \<noteq> 0" using nz sq by auto
    have q': "spec_quote db row = Some m" using sq Some by simp
    show ?thesis
    proof (cases "p row - moneyline_to_implied_prob m > thr")
      case False
      then show ?thesis
        using d Some q'
        by (simp add: simulate_row_def spec_bets_def List.map_filter_def spec_tally_Nil)
    next
      case True
      then have bets: "spec_bets p db thr [row] = [(row, m)]"
        using q' by (simp add: spec_bets_def List.map_filter_def)
      show ?thesis
      proof (cases "target_did_win row = 1")
        case won: True
        have "simulate_row odds_dict p thr stake sim row =
            Inr \<lparr>total_bets = total_bets sim + 1,
                 total_won = total_won sim + 1,
                 total_profit = total_profit sim + (spec_payout m stake - stake),
                 bets_placed = bets_placed sim @
                   [\<lparr>bet_game_id = row_game_id row,
                     bet_team_id = row_team_id row,
                     bet_opponent_id = opponent_id row,
                     bet_is_home = row_is_home row,
                     bet_model_prob = p row,
                     bet_implied_prob = moneyline_to_implied_prob m,
                     bet_edge = p row - moneyline_to_implied_prob m,
                     bet_moneyline = m,
                     bet_result = ''WIN'',
                     bet_profit = spec_payout m stake - stake\<rparr>]\<rparr>"
          unfolding simulate_row_def Let_def
          using d Some True won moneyline_to_payout_spec [OF m0, of stake] by simp
        also have "\<dots> = Inr (spec_tally p stake sim [(row, m)])"
          using won by (simp add: spec_tally_def spec_profit_def spec_ledger_entry_def)
        finally show ?thesis by (simp only: bets)
      next
        case lost: False
        have "simulate_row odds_dict p thr stake sim row =
            Inr \<lparr>total_bets = total_bets sim + 1,
                 total_won = total_won sim,
                 total_profit = total_profit sim + (- stake),
                 bets_placed = bets_placed sim @
                   [\<lparr>bet_game_id = row_game_id row,
                     bet_team_id = row_team_id row,
                     bet_opponent_id = opponent_id row,
                     bet_is_home = row_is_home row,
                     bet_model_prob = p row,
                     bet_implied_prob = moneyline_to_implied_prob m,
                     bet_edge = p row - moneyline_to_implied_prob m,
                     bet_moneyline = m,
                     bet_result = ''LOSS'',
                     bet_profit = - stake\<rparr>]\<rparr>"
          unfolding simulate_row_def Let_def
          using d Some True lost by simp
        also have "\<dots> = Inr (spec_tally p stake sim [(row, m)])"
          using lost by (simp add: spec_tally_def spec_profit_def spec_ledger_entry_def)
        finally show ?thesis by (simp only: bets)
      qed
    qed
  qed
qed

lemma simulate_rows_spec:
  assumes "\<forall>row \<in> set rows. odds_dict (row_game_id row) =
      (case filter (\<lambda>odds. odds_game_id odds = row_game_id row) (odds_table db) of
         [] \<Rightarrow> None | q # rest \<Rightarrow> Some (q # rest))"
    and "\<forall>row \<in> set rows. spec_quote db row \<noteq> Some 0"
  shows "simulate_rows odds_dict p thr stake sim rows =
         Inr (spec_tally p stake sim (spec_bets p db thr rows))"
  using assms
proof (induction rows arbitrary: sim)
  case Nil
  show ?case by (simp add: spec_bets_def List.map_filter_def spec_tally_Nil)
next
  case (Cons row rows)
  have d: "odds_dict (row_game_id row) =
      (case filter (\<lambda>odds. odds_game_id odds = row_game_id row) (odds_table db) of
         [] \<Rightarrow> None | q # rest \<Rightarrow> Some (q # rest))"
    and nz: "spec_quote db row \<noteq> Some 0"
    using Cons.prems by simp_all
  have rest1: "\<forall>row \<in> set rows. odds_dict (row_game_id row) =
      (case filter (\<lambda>odds. odds_game_id odds = row_game_id row) (odds_table db) of
         [] \<Rightarrow> None | q # rest \<Rightarrow> Some (q # rest))"
    and rest2: "\<forall>row \<in> set rows. spec_quote db row \<noteq> Some 0"
    using Cons.prems by simp_all
  have "simulate_rows odds_dict p thr stake sim (row # rows) =
        simulate_rows odds_dict p thr stake (spec_tally p stake sim (spec_bets p db thr [row])) rows"
    by (simp add: simulate_row_spec [where odds_dict = odds_dict and row = row and db = db, OF d nz])
  also have "\<dots> = Inr (spec_tally p stake (spec_tally p stake sim (spec_bets p db thr [row]))
                        (spec_bets p db thr rows))"
    using rest1 rest2 by (rule Cons.IH)
  also have "\<dots> = Inr (spec_tally p stake sim (spec_bets p db thr (row # rows)))"
    by (simp only: spec_tally_append spec_bets_Cons [of p db thr row rows])
  finally show ?case .
qed

lemma run_profitability_simulation_spec:
  assumes rows: "filter (\<lambda>row. row_season row = test_season) features_df \<noteq> []"
    and stake: "bet_amount \<noteq> 0"
    and nz: "\<forall>row \<in> set features_df. spec_quote db row \<noteq> Some 0"
  shows "run_profitability_simulation p db features_df test_season thr bet_amount =
     Inr (Some (spec_simulation p db
        (filter (\<lambda>row. row_season row = test_season) features_df) thr bet_amount))"
proof -
  define test_df where "test_df = filter (\<lambda>row. row_season row = test_season) features_df"
  define ids where "ids = set (remdups (map row_game_id test_df))"
  define odds_dict where
    "odds_dict = odds_lookup (filter (\<lambda>odds. odds_game_id odds \<in> ids) (odds_table db))"
  define bets where "bets = spec_bets p db thr test_df"
  have ne: "length test_df \<noteq> 0" using rows by (simp add: test_df_def)
  have look: "\<forall>row \<in> set test_df. odds_dict (row_game_id row) =
      (case filter (\<lambda>odds. odds_game_id odds = row_game_id row) (odds_table db) of
         [] \<Rightarrow> None | q # rest \<Rightarrow> Some (q # rest))"
  proof
    fix row assume "row \<in> set test_df"
    then have "row_game_id row \<in> ids" by (simp add: ids_def)
    then show "odds_dict (row_game_id row) =
      (case filter (\<lambda>odds. odds_game_id odds = row_game_id row) (odds_table db) of
         [] \<Rightarrow> None | q # rest \<Rightarrow> Some (q # rest))"
      unfolding odds_dict_def odds_lookup_filter by (simp only: filter_test_games)
  qed
  have nz': "\<forall>row \<in> set test_df. spec_quote db row \<noteq> Some 0"
    using nz by (simp add: test_df_def)
  have sim: "simulate_rows odds_dict p thr bet_amount
       \<lparr>total_bets = 0, total_won = 0, total_profit = 0, bets_placed = []\<rparr> test_df =
     Inr (spec_tally p bet_amount
       \<lparr>total_bets = 0, total_won = 0, total_profit = 0, bets_placed = []\<rparr> bets)"
    unfolding bets_def using look nz' by (rule simulate_rows_spec)
  have run: "run_profitability_simulation p db features_df test_season thr bet_amount =
     (case simulate_rows odds_dict p thr bet_amount
                      \<lparr>total_bets = 0, total_won = 0, total_profit = 0, bets_placed = []\<rparr>
                      test_df of
                 Inl e \<Rightarrow> Inl e
               | Inr sim \<Rightarrow>
                   let win_rate = (if total_bets sim > 0
                                   then real_of_int (total_won sim) / real_of_int (total_bets sim) * 100
                                   else 0)
                   in if total_bets sim > 0 \<and> real_of_int (total_bets sim) * bet_amount = 0
                      then Inl ZeroDivisionError
                      else
                        let roi = (if total_bets sim > 0
                                   then total_profit sim / (real_of_int (total_bets sim) * bet_amount) * 100
                                   else 0)
                        in Inr (Some
                             \<lparr>res_total_bets = total_bets sim,
                              res_total_won = total_won sim,
                              res_total_lost = total_bets sim - total_won sim,
                              res_win_rate = win_rate,
                              res_total_profit = total_profit sim,
                              res_roi = roi,
                              res_bets_placed = bets_placed sim\<rparr>))"
    unfolding run_profitability_simulation_def Let_def test_df_def [symmetric]
      ids_def [symmetric] odds_dict_def [symmetric]
    using ne by simp
  show ?thesis
    unfolding run sim test_df_def [symmetric]
    using stake
    by (simp add: spec_simulation_def spec_tally_def Let_def bets_def [symmetric])
qed

lemma synthetic_quotes:
  "spec_quote synthetic_db (sample_row ''A'' 1 1) = Some (- 150)"
  "spec_quote synthetic_db (sample_row ''B'' 1 0) = Some 120"
  "spec_quote synthetic_db (sample_row ''C'' 1 1) = Some (- 110)"
  "spec_quote synthetic_db (sample_row ''D'' 0 0) = None"
  by (simp_all add: spec_quote_def synthetic_db_def sample_row_def new_odds_def)

text \<open>
  Only the first quote of a game is read: a first quote without moneylines hides a
  later one that has them.
\<close>

lemma spec_quote_first_only:
  "spec_quote (synthetic_db\<lparr>odds_table := new_odds ''A'' None None # odds_table synthetic_db\<rparr>)
     (sample_row ''A'' 1 1) = None"
  by (simp add: spec_quote_def synthetic_db_def sample_row_def new_odds_def)

lemma synthetic_bets:
  "spec_bets synthetic_model synthetic_db (3 / 100) synthetic_rows =
     [(sample_row ''A'' 1 1, - 150), (sample_row ''B'' 1 0, 120)]"
  unfolding spec_bets_def List.map_filter_def synthetic_rows_def
  by (simp add: synthetic_quotes moneyline_to_implied_prob_def)
     (simp add: synthetic_model_def sample_row_def)

lemma synthetic_simulation:
  "run_profitability_simulation synthetic_model synthetic_db synthetic_rows 2024 (3 / 100) 100 =
     Inr (Some (spec_simulation synthetic_model synthetic_db synthetic_rows (3 / 100) 100))"
proof -
  have season: "filter (\<lambda>row. row_season row = 2024) synthetic_rows = synthetic_rows"
    by (simp add: synthetic_rows_def sample_row_def)
  have rows: "filter (\<lambda>row. row_season row = 2024) synthetic_rows \<noteq> []"
    unfolding season by (simp add: synthetic_rows_def)
  have stake: "(100::real) \<noteq> 0" by simp
  have nz: "\<forall>row \<in> set synthetic_rows. spec_quote synthetic_db row \<noteq> Some 0"
    by (simp add: synthetic_rows_def synthetic_quotes)
  from run_profitability_simulation_spec [OF rows stake nz]
  show ?thesis unfolding season .
qed

lemma synthetic_result:
  "spec_simulation synthetic_model synthetic_db synthetic_rows (3 / 100) 100 =
     \<lparr>res_total_bets = 2, res_total_won = 1, res_total_lost = 1, res_win_rate = 50,
      res_total_profit = - 100 / 3, res_roi = - 50 / 3,
      res_bets_placed =
        [spec_ledger_entry synthetic_model 100 (sample_row ''A'' 1 1, - 150),
         spec_ledger_entry synthetic_model 100 (sample_row ''B'' 1 0, 120)]\<rparr>"
  unfolding spec_simulation_def synthetic_bets Let_def
  by (simp add: spec_profit_def spec_payout_def sample_row_def)

text \<open>
  Claim C3, as stated, fails. Game A has a quote with a home moneyline of -150, on
  which the home row's edge is 0.05, above the threshold of 0.03; but that quote is
  listed second, the first one has no moneyline, and the simulation reads the first
  quote only: no bet is placed.
\<close>

theorem later_quote_ignored:
  "run_profitability_simulation synthetic_model two_quote_db [sample_row ''A'' 1 1]
     2024 (3 / 100) 100 =
   Inr (Some \<lparr>res_total_bets = 0, res_total_won = 0, res_total_lost = 0, res_win_rate = 0,
              res_total_profit = 0, res_roi = 0, res_bets_placed = []\<rparr>) \<and>
   odds_game_id (odds_table two_quote_db ! 1) = row_game_id (sample_row ''A'' 1 1) \<and>
   row_is_home (sample_row ''A'' 1 1) = 1 \<and>
   home_team_moneyline (odds_table two_quote_db ! 1) = Some (- 150) \<and>
   synthetic_model (sample_row ''A'' 1 1) - moneyline_to_implied_prob (- 150) = 5 / 100 \<and>
   (3 / 100 :: real) < 5 / 100"
proof -
  have run: "run_profitability_simulation synthetic_model two_quote_db [sample_row ''A'' 1 1]
       2024 (3 / 100) 100 =
     Inr (Some \<lparr>res_total_bets = 0, res_total_won = 0, res_total_lost = 0, res_win_rate = 0,
                res_total_profit = 0, res_roi = 0, res_bets_placed = []\<rparr>)"
    by (simp add: run_profitability_simulation_def odds_lookup_def simulate_row_def
        two_quote_db_def sample_row_def Let_def)
  have second: "odds_game_id (odds_table two_quote_db ! 1) = row_game_id (sample_row ''A'' 1 1) \<and>
      row_is_home (sample_row ''A'' 1 1) = 1 \<and>
      home_team_moneyline (odds_table two_quote_db ! 1) = Some (- 150)"
    by (simp add: two_quote_db_def sample_row_def)
  have edge: "synthetic_model (sample_row ''A'' 1 1) - moneyline_to_implied_prob (- 150) = 5 / 100"
    by (simp add: synthetic_model_def sample_row_def moneyline_to_implied_prob_def)
  have thr: "(3 / 100 :: real) < 5 / 100" by simp
  from run second edge thr show ?thesis by (intro conjI) blast+
qed

text \<open>
  Claim C3, amended. For a test season with rows, a nonzero stake and nonzero
  moneylines, the simulation returns this tally: a bet is placed on a row exactly when
  the first quote listed for its game has a moneyline on the row's side and
  \<open>model_prob - implied_prob\<close>, taken on that moneyline, is strictly above the threshold;
  other rows (no quote, a first quote without that moneyline, an edge at or below the
  threshold) add nothing; a winning bet adds \<open>payout - stake\<close> and a losing one
  \<open>- stake\<close>; the win rate is \<open>wins / bets * 100\<close> and the return
  \<open>profit / (bets * stake) * 100\<close>, both 0 without bets. On the synthetic three-row set
  the result is 2 bets, 1 won, a profit of \<open>- 100 / 3\<close> (about -33.33) and a return of
  \<open>- 50 / 3\<close> percent (about -16.67).
\<close>

theorem backtest_tally:
  assumes rows: "filter (\<lambda>row. row_season row = test_season) features_df \<noteq> []"
    and stake: "bet_amount \<noteq> 0"
    and nz: "\<forall>row \<in> set features_df. spec_quote db row \<noteq> Some 0"
  shows "run_profitability_simulation model_win_proba db features_df test_season
           edge_threshold bet_amount =
         Inr (Some (spec_simulation model_win_proba db
            (filter (\<lambda>row. row_season row = test_season) features_df)
            edge_threshold bet_amount)) \<and>
         (\<exists>r. run_profitability_simulation synthetic_model synthetic_db synthetic_rows
                 2024 (3 / 100) 100 = Inr (Some r) \<and>
              res_total_bets r = 2 \<and> res_total_won r = 1 \<and> res_total_lost r = 1 \<and>
              res_win_rate r = 50 \<and>
              res_total_profit r = - 100 / 3 \<and> \<bar>res_total_profit r - (- 3333 / 100)\<bar> \<le> 1 / 100 \<and>
              res_roi r = - 50 / 3 \<and> \<bar>res_roi r - (- 1667 / 100)\<bar> \<le> 1 / 100 \<and>
              map bet_game_id (res_bets_placed r) = [''A'', ''B''] \<and>
              map bet_moneyline (res_bets_placed r) = [- 150, 120] \<and>
              map bet_edge (res_bets_placed r) = [5 / 100, 10 / 100] \<and>
              map bet_profit (res_bets_placed r) = [200 / 3, - 100])"
proof
  show "run_profitability_simulation model_win_proba db features_df test_season
           edge_threshold bet_amount =
         Inr (Some (spec_simulation model_win_proba db
            (filter (\<lambda>row. row_season row = test_season) features_df)
            edge_threshold bet_amount))"
    using rows stake nz by (rule run_profitability_simulation_spec)
next
  let ?r = "spec_simulation synthetic_model synthetic_db synthetic_rows (3 / 100) 100"
  have ledger: "map bet_game_id (res_bets_placed ?r) = [''A'', ''B''] \<and>
              map bet_moneyline (res_bets_placed ?r) = [- 150, 120] \<and>
              map bet_edge (res_bets_placed ?r) = [5 / 100, 10 / 100] \<and>
              map bet_profit (res_bets_placed ?r) = [200 / 3, - 100]"
    unfolding synthetic_result
    by (simp add: spec_ledger_entry_def spec_profit_def spec_payout_def sample_row_def
        synthetic_model_def moneyline_to_implied_prob_def)
  have nums: "res_total_bets ?r = 2 \<and> res_total_won ?r = 1 \<and> res_total_lost ?r = 1 \<and>
              res_win_rate ?r = 50 \<and>
              res_total_profit ?r = - 100 / 3 \<and> \<bar>res_total_profit ?r - (- 3333 / 100)\<bar> \<le> 1 / 100 \<and>
              res_roi ?r = - 50 / 3 \<and> \<bar>res_roi ?r - (- 1667 / 100)\<bar> \<le> 1 / 100"
    unfolding synthetic_result by simp
  show "\<exists>r. run_profitability_simulation synthetic_model synthetic_db synthetic_rows
                 2024 (3 / 100) 100 = Inr (Some r) \<and>
              res_total_bets r = 2 \<and> res_total_won r = 1 \<and> res_total_lost r = 1 \<and>
              res_win_rate r = 50 \<and>
              res_total_profit r = - 100 / 3 \<and> \<bar>res_total_profit r - (- 3333 / 100)\<bar> \<le> 1 / 100 \<and>
              res_roi r = - 50 / 3 \<and> \<bar>res_roi r - (- 1667 / 100)\<bar> \<le> 1 / 100 \<and>
              map bet_game_id (res_bets_placed r) = [''A'', ''B''] \<and>
              map bet_moneyline (res_bets_placed r) = [- 150, 120] \<and>
              map bet_edge (res_bets_placed r) = [5 / 100, 10 / 100] \<and>
              map bet_profit (res_bets_placed r) = [200 / 3, - 100]"
    using synthetic_simulation nums ledger by (intro exI [of _ ?r]) blast
qed

theorem backtest_tally_witness:
  "run_profitability_simulation synthetic_model synthetic_db
     [(sample_row ''A'' 1 1)\<lparr>row_season := 2023\<rparr>, sample_row ''C'' 1 1, sample_row ''D'' 0 0]
     2024 (3 / 100) 100 =
   Inr (Some \<lparr>res_total_bets = 0, res_total_won = 0, res_total_lost = 0, res_win_rate = 0,
              res_total_profit = 0, res_roi = 0, res_bets_placed = []\<rparr>)"
proof -
  let ?df = "[(sample_row ''A'' 1 1)\<lparr>row_season := 2023\<rparr>, sample_row ''C'' 1 1,
              sample_row ''D'' 0 0]"
  have season: "filter (\<lambda>row. row_season row = 2024) ?df = [sample_row ''C'' 1 1, sample_row ''D'' 0 0]"
    by (simp add: sample_row_def)
  have rows: "filter (\<lambda>row. row_season row = 2024) ?df \<noteq> []"
    unfolding season by simp
  have stake: "(100::real) \<noteq> 0" by simp
  have qA: "spec_quote synthetic_db ((sample_row ''A'' 1 1)\<lparr>row_season := 2023\<rparr>) = Some (- 150)"
    by (simp add: spec_quote_def synthetic_db_def sample_row_def new_odds_def)
  have nz: "\<forall>row \<in> set ?df. spec_quote synthetic_db row \<noteq> Some 0"
    by (simp add: synthetic_quotes qA)
  have bets: "spec_bets synthetic_model synthetic_db (3 / 100)
                [sample_row ''C'' 1 1, sample_row ''D'' 0 0] = []"
    unfolding spec_bets_def List.map_filter_def
    by (simp add: synthetic_quotes moneyline_to_implied_prob_def)
       (simp add: synthetic_model_def sample_row_def)
  have res: "spec_simulation synthetic_model synthetic_db
                [sample_row ''C'' 1 1, sample_row ''D'' 0 0] (3 / 100) 100 =
      \<lparr>res_total_bets = 0, res_total_won = 0, res_total_lost = 0, res_win_rate = 0,
              res_total_profit = 0, res_roi = 0, res_bets_placed = []\<rparr>"
    unfolding spec_simulation_def bets Let_def by simp
  from backtest_tally [OF rows stake nz, of synthetic_model "3 / 100"]
  have "run_profitability_simulation synthetic_model synthetic_db ?df 2024 (3 / 100) 100 =
         Inr (Some (spec_simulation synthetic_model synthetic_db
            (filter (\<lambda>row. row_season row = 2024) ?df) (3 / 100) 100))"
    by (rule conjunct1)
  then show ?thesis unfolding season res .
qed

end
